theory Spec2Isabelle
  imports Main
begin

section \<open>JavaScript values and strings\<close>

text \<open>
  The service handles JSON data received from the search API, so the model works on a
  datatype of JavaScript values. Numbers are restricted to integers (counts, years and
  identifiers are the only numbers the pipeline reads). A string is a list of code units
  below 256. \<open>Native\<close> stands for a built-in function object, which a property read on a
  string primitive can return (\<open>''x''.link\<close>).
\<close>

datatype js =
    Undefined
  | Null
  | Bool bool
  | Num int
  | Str string
  | Arr "js list"
  | Obj "(string \<times> js) list"
  | Native string

text \<open>Exceptions: a plain \<open>Error\<close>, a \<open>TypeError\<close> of the engine, an error of the
  database driver (with its \<open>code\<close>) and an error of the HTTP client (with the body of the
  response, when a response was received).\<close>

datatype exn =
    Error string
  | TypeError string
  | DriverError string string
  | AxiosError string "js option"

fun message :: "exn \<Rightarrow> string" where
  "message (Error m) = m"
| "message (TypeError m) = m"
| "message (DriverError c m) = m"
| "message (AxiosError m r) = m"

fun code :: "exn \<Rightarrow> string option" where
  "code (DriverError c m) = Some c"
| "code _ = None"

fun response :: "exn \<Rightarrow> js option" where
  "response (AxiosError m r) = r"
| "response _ = None"

text \<open>Truthiness, as \<open>!x\<close>, \<open>x || y\<close> and \<open>x ? a : b\<close> read it.\<close>

fun truthy :: "js \<Rightarrow> bool" where
  "truthy Undefined = False"
| "truthy Null = False"
| "truthy (Bool b) = b"
| "truthy (Num n) = (n \<noteq> 0)"
| "truthy (Str s) = (s \<noteq> [])"
| "truthy (Arr xs) = True"
| "truthy (Obj kvs) = True"
| "truthy (Native f) = True"

definition or_js :: "js \<Rightarrow> js \<Rightarrow> js" where
  "or_js a b = (if truthy a then a else b)"

text \<open>Reading a property: a \<open>TypeError\<close> on \<open>null\<close> and \<open>undefined\<close>, the own property of a
  JSON object (an object is the list of its own properties, each name once), \<open>length\<close> of
  arrays and strings, the inherited method \<open>link\<close> of strings, and \<open>undefined\<close> otherwise
  (no other property name read by this program is inherited).\<close>

fun getProp :: "js \<Rightarrow> string \<Rightarrow> exn + js" where
  "getProp Undefined k =
     Inl (TypeError (''Cannot read properties of undefined (reading ''
                     @ [CHR 0x27] @ k @ [CHR 0x27] @ '')''))"
| "getProp Null k =
     Inl (TypeError (''Cannot read properties of null (reading ''
                     @ [CHR 0x27] @ k @ [CHR 0x27] @ '')''))"
| "getProp (Obj kvs) k = Inr (case map_of kvs k of Some v \<Rightarrow> v | None \<Rightarrow> Undefined)"
| "getProp (Arr xs) k = Inr (if k = ''length'' then Num (int (length xs)) else Undefined)"
| "getProp (Str s) k =
     Inr (if k = ''length'' then Num (int (length s))
          else if k = ''link'' then Native ''link'' else Undefined)"
| "getProp (Bool b) k = Inr Undefined"
| "getProp (Num n) k = Inr Undefined"
| "getProp (Native f) k = Inr Undefined"

text \<open>Optional chaining \<open>x?.k\<close>: \<open>undefined\<close> when \<open>x\<close> is \<open>null\<close> or \<open>undefined\<close>.\<close>

fun getOpt :: "js \<Rightarrow> string \<Rightarrow> js" where
  "getOpt Undefined k = Undefined"
| "getOpt Null k = Undefined"
| "getOpt v k = (case getProp v k of Inr x \<Rightarrow> x | Inl e \<Rightarrow> Undefined)"

subsection \<open>Strings\<close>

text \<open>White space as \<open>\s\<close> and \<open>trim\<close> see it, among the code units below 256: tab, line
  feed, vertical tab, form feed, carriage return, space, no-break space.\<close>

definition isSpace :: "char \<Rightarrow> bool" where
  "isSpace c \<longleftrightarrow> (of_char c :: nat) \<in> {9, 10, 11, 12, 13, 32, 160}"

definition trim :: "string \<Rightarrow> string" where
  "trim s = rev (dropWhile isSpace (rev (dropWhile isSpace s)))"

text \<open>\<open>str.replace(/\s+/g, ' ')\<close>: every maximal run of white space becomes one space.\<close>

function replaceSpaceRuns :: "string \<Rightarrow> string" where
  "replaceSpaceRuns [] = []"
| "replaceSpaceRuns (c # cs) =
     (if isSpace c then CHR '' '' # replaceSpaceRuns (dropWhile isSpace cs)
      else c # replaceSpaceRuns cs)"
  by pat_completeness auto
termination
  by (relation "measure length") (auto simp: length_dropWhile_le less_Suc_eq_le)

text \<open>\<open>sanitizeString\<close> of the parser service. A truthy value that is not a string has no
  method \<open>replace\<close>.\<close>

definition sanitizeString :: "js \<Rightarrow> exn + js" where
  "sanitizeString str =
     (if \<not> truthy str then Inr Null
      else case str of
        Str s \<Rightarrow> Inr (Str (trim (replaceSpaceRuns s)))
      | _ \<Rightarrow> Inl (TypeError ''str.replace is not a function''))"

text \<open>The words of a string: its maximal runs of characters that are not white space,
  and the words joined by single spaces. This is the description of the result of
  sanitizing that the code is compared with.\<close>

function wsWords :: "string \<Rightarrow> string list" where
  "wsWords s =
     (case dropWhile isSpace s of
        [] \<Rightarrow> []
      | c # cs \<Rightarrow> takeWhile (\<lambda>x. \<not> isSpace x) (c # cs)
                 # wsWords (dropWhile (\<lambda>x. \<not> isSpace x) (c # cs)))"
  by pat_completeness auto
termination
proof (relation "measure length", goal_cases)
  case 1
  show ?case by simp
next
  case (2 s c cs)
  have "length (dropWhile (\<lambda>x. \<not> isSpace x) (c # cs)) < length (c # cs)"
  proof (cases "isSpace c")
    case True
    have "c \<in> set (dropWhile isSpace s)" using 2 by simp
    then have "hd (dropWhile isSpace s) = c" using 2 by simp
    moreover have "\<not> isSpace (hd (dropWhile isSpace s))"
      using 2 hd_dropWhile[of isSpace s] by simp
    ultimately show ?thesis using True by simp
  next
    case False
    then show ?thesis by (simp add: length_dropWhile_le less_Suc_eq_le)
  qed
  moreover have "length (c # cs) \<le> length s"
    using 2 length_dropWhile_le[of isSpace s] by simp
  ultimately show ?case by simp
qed

fun joinWords :: "string list \<Rightarrow> string" where
  "joinWords [] = []"
| "joinWords [w] = w"
| "joinWords (w # v # ws) = w @ CHR '' '' # joinWords (v # ws)"


subsection \<open>String operations of the runtime\<close>

text \<open>\<open>s.split(sep)\<close> with a string separator, scanning from the left without overlap.\<close>

function splitStr :: "string \<Rightarrow> string \<Rightarrow> string list" where
  "splitStr sep [] = (if sep = [] then [] else [[]])"
| "splitStr sep (c # cs) =
     (if sep = [] then [c] # splitStr sep cs
      else if take (length sep) (c # cs) = sep
        then [] # splitStr sep (drop (length sep) (c # cs))
      else (case splitStr sep cs of
              p # ps \<Rightarrow> (c # p) # ps
            | [] \<Rightarrow> [[c]]))"
  by pat_completeness auto
termination
  by (relation "measure (\<lambda>(sep, s). length s)") auto

text \<open>\<open>xs[i]\<close> of an array of strings: \<open>None\<close> is \<open>undefined\<close>.\<close>

definition part :: "string list \<Rightarrow> nat \<Rightarrow> string option" where
  "part parts i = (if i < length parts then Some (parts ! i) else None)"

text \<open>\<open>s.includes(sub)\<close>.\<close>

fun includesStr :: "string \<Rightarrow> string \<Rightarrow> bool" where
  "includesStr [] sub = (sub = [])"
| "includesStr (c # cs) sub = (take (length sub) (c # cs) = sub \<or> includesStr cs sub)"

text \<open>\<open>s.toUpperCase()\<close> on the letters a to z. No other character has \<open>P\<close>, \<open>D\<close> or
  \<open>F\<close> as its upper case, so the comparison with \<open>'PDF'\<close> below is exact.\<close>

definition toUpperChar :: "char \<Rightarrow> char" where
  "toUpperChar c =
     (if 97 \<le> (of_char c :: nat) \<and> (of_char c :: nat) \<le> 122
      then char_of ((of_char c :: nat) - 32) else c)"

definition toUpperCase :: "string \<Rightarrow> string" where
  "toUpperCase s = map toUpperChar s"

definition isDigit :: "char \<Rightarrow> bool" where
  "isDigit c \<longleftrightarrow> 48 \<le> (of_char c :: nat) \<and> (of_char c :: nat) \<le> 57"

text \<open>The class \<open>\w\<close>: letters, digits and the underscore.\<close>

definition isWord :: "char \<Rightarrow> bool" where
  "isWord c \<longleftrightarrow>
     (let n = (of_char c :: nat)
      in (65 \<le> n \<and> n \<le> 90) \<or> (97 \<le> n \<and> n \<le> 122) \<or> (48 \<le> n \<and> n \<le> 57) \<or> n = 95)"

text \<open>Decimal numerals: \<open>String(n)\<close> for an integer and \<open>parseInt\<close> on a string of digits.\<close>

function showNat :: "nat \<Rightarrow> string" where
  "showNat n =
     (if n < 10 then [char_of (48 + n)] else showNat (n div 10) @ [char_of (48 + n mod 10)])"
  by pat_completeness auto
termination
  by (relation "measure id") auto

definition showInt :: "int \<Rightarrow> string" where
  "showInt i = (if i < 0 then CHR ''-'' # showNat (nat (- i)) else showNat (nat i))"

definition parseInt :: "string \<Rightarrow> int" where
  "parseInt s = int (foldl (\<lambda>a c. 10 * a + ((of_char c :: nat) - 48)) 0 s)"

fun joinComma :: "string list \<Rightarrow> string" where
  "joinComma [] = []"
| "joinComma [x] = x"
| "joinComma (x # y # ys) = x @ CHR '','' # joinComma (y # ys)"

text \<open>\<open>String(v)\<close>, as template literals and \<open>new Error(v)\<close> apply it. A number is
  printed with all its digits, as \<open>String\<close> prints an integer of magnitude below \<open>10\<^sup>2\<^sup>1\<close>;
  larger numbers, which \<open>String\<close> prints with an exponent, are outside the model.\<close>

fun toString :: "js \<Rightarrow> string" where
  "toString Undefined = ''undefined''"
| "toString Null = ''null''"
| "toString (Bool b) = (if b then ''true'' else ''false'')"
| "toString (Num n) = showInt n"
| "toString (Str s) = s"
| "toString (Arr xs) =
     joinComma (map (\<lambda>x. if x = Null \<or> x = Undefined then [] else toString x) xs)"
| "toString (Obj kvs) = ''[object Object]''"
| "toString (Native f) = ''function '' @ f @ ''() { [native code] }''"

subsection \<open>The two regular expressions of the summary parser\<close>

text \<open>The pattern \<open>(19|20)\d{2}\<close> matches at the start of the string.\<close>

fun yearAt :: "string \<Rightarrow> bool" where
  "yearAt (a # b # c # d # rest) =
     ((a = CHR ''1'' \<and> b = CHR ''9'' \<or> a = CHR ''2'' \<and> b = CHR ''0'') \<and> isDigit c \<and> isDigit d)"
| "yearAt _ = False"

text \<open>\<open>s.match(/\b(19|20)\d{2}\b/)\<close>: the text of the leftmost match. The first argument
  says whether the character before the current position is a word character; the match
  starts with a digit, so the boundary before it asks for no word character there, and the
  boundary after it for no word character after the fourth digit.\<close>

fun matchYear :: "bool \<Rightarrow> string \<Rightarrow> string option" where
  "matchYear prev [] = None"
| "matchYear prev (c # cs) =
     (if \<not> prev \<and> yearAt (c # cs)
         \<and> (case drop 4 (c # cs) of [] \<Rightarrow> True | d # ds \<Rightarrow> \<not> isWord d)
      then Some (take 4 (c # cs))
      else matchYear (isWord c) cs)"

text \<open>The pattern \<open>,?\s*(19|20)\d{2}\<close> anchored at the start of the string: the rest of
  the string after the match. The year starts with a digit, so the optional comma and the
  white space are consumed greedily without alternatives.\<close>

definition matchCommaYear :: "string \<Rightarrow> string option" where
  "matchCommaYear s =
     (let s1 = (case s of [] \<Rightarrow> [] | c # cs \<Rightarrow> if c = CHR '','' then cs else c # cs);
          s2 = dropWhile isSpace s1
      in if yearAt s2 then Some (drop 4 s2) else None)"

text \<open>\<open>s.replace(/,?\s*(19|20)\d{2}/, '')\<close>: the leftmost match is removed.\<close>

fun replaceYear :: "string \<Rightarrow> string" where
  "replaceYear [] = []"
| "replaceYear (c # cs) =
     (case matchCommaYear (c # cs) of
        Some rest \<Rightarrow> rest
      | None \<Rightarrow> c # replaceYear cs)"

section \<open>Parser service\<close>

definition bindE :: "exn + 'a \<Rightarrow> ('a \<Rightarrow> exn + 'b) \<Rightarrow> exn + 'b" where
  "bindE x f = (case x of Inl e \<Rightarrow> Inl e | Inr v \<Rightarrow> f v)"

record publicationInfo =
  authors :: js
  journal :: js
  year :: js
  publisher :: js

text \<open>\<open>parsePublicationInfo\<close>. A truthy summary that is not a string has no method
  \<open>split\<close>.\<close>

definition nullInfo :: publicationInfo where
  "nullInfo = \<lparr>authors = Null, journal = Null, year = Null, publisher = Null\<rparr>"

definition parsePublicationInfo :: "js \<Rightarrow> exn + publicationInfo" where
  "parsePublicationInfo summary =
     (if \<not> truthy summary
      then Inr nullInfo
      else case summary of
        Str s \<Rightarrow>
          (let parts = splitStr '' - '' s;
               authors = (case part parts 0 of
                            None \<Rightarrow> Null
                          | Some p \<Rightarrow> or_js (Str (trim p)) Null);
               jy = (case part parts 1 of
                       None \<Rightarrow> (Null, Null)
                     | Some p \<Rightarrow>
                         if p = [] then (Null, Null)
                         else (let sourceYear = trim p
                               in case matchYear False sourceYear of
                                    Some yearMatch \<Rightarrow>
                                      (Str (trim (replaceYear sourceYear)), Num (parseInt yearMatch))
                                  | None \<Rightarrow> (Str sourceYear, Null)));
               publisher = (case part parts 2 of
                              None \<Rightarrow> Null
                            | Some p \<Rightarrow> or_js (Str (trim p)) Null)
           in Inr \<lparr>authors = authors, journal = fst jy, year = snd jy, publisher = publisher\<rparr>)
      | _ \<Rightarrow> Inl (TypeError ''summary.split is not a function''))"

text \<open>The object \<open>{}\<close> that stands for the parsed summary when the item has no
  \<open>publication_info\<close>: each of its fields reads as \<open>undefined\<close>.\<close>

definition emptyInfo :: publicationInfo where
  "emptyInfo = \<lparr>authors = Undefined, journal = Undefined, year = Undefined, publisher = Undefined\<rparr>"

record publication =
  google_scholar_id :: js
  title :: js
  authors :: js
  publication_year :: js
  journal :: js
  article_url :: js
  abstract :: js
  citation_count :: js
  cites_id :: js
  pdf_url :: js
  cluster_id :: js
  publisher :: js

text \<open>\<open>resources.find(resource => resource.file_format?.toUpperCase() === 'PDF')\<close>.\<close>

fun findPdf :: "js list \<Rightarrow> exn + js" where
  "findPdf [] = Inr Undefined"
| "findPdf (resource # rest) =
     bindE (getProp resource ''file_format'') (\<lambda>ff.
     bindE (case ff of
              Undefined \<Rightarrow> Inr Undefined
            | Null \<Rightarrow> Inr Undefined
            | Str s \<Rightarrow> Inr (Str (toUpperCase s))
            | _ \<Rightarrow> Inl (TypeError ''resource.file_format?.toUpperCase is not a function''))
       (\<lambda>u. if u = Str ''PDF'' then Inr resource else findPdf rest))"

definition extractPdfUrl :: "js \<Rightarrow> exn + js" where
  "extractPdfUrl resources =
     (case resources of
        Arr rs \<Rightarrow> bindE (findPdf rs) (\<lambda>pdfResource. Inr (or_js (getOpt pdfResource ''link'') Null))
      | _ \<Rightarrow> Inr Null)"

definition parseOrganicResult :: "js \<Rightarrow> exn + publication" where
  "parseOrganicResult result =
     bindE (getProp result ''publication_info'') (\<lambda>pinfo.
     bindE (if truthy pinfo
            then bindE (getProp pinfo ''summary'') parsePublicationInfo
            else Inr emptyInfo) (\<lambda>publicationInfo.
     bindE (getProp result ''result_id'') (\<lambda>result_id.
     bindE (getProp result ''title'') (\<lambda>title.
     bindE (getProp result ''link'') (\<lambda>link.
     bindE (getProp result ''snippet'') (\<lambda>snippet.
     bindE (getProp result ''inline_links'') (\<lambda>inline_links.
     bindE (getProp result ''resources'') (\<lambda>resources.
     bindE (extractPdfUrl resources) (\<lambda>pdf.
       Inr \<lparr>google_scholar_id = or_js result_id Null,
            title = or_js title Null,
            authors = or_js (publicationInfo.authors publicationInfo) Null,
            publication_year = or_js (year publicationInfo) Null,
            journal = or_js (publicationInfo.journal publicationInfo) Null,
            article_url = or_js link Null,
            abstract = or_js snippet Null,
            citation_count = or_js (getOpt (getOpt inline_links ''cited_by'') ''total'') (Num 0),
            cites_id = or_js (getOpt (getOpt inline_links ''cited_by'') ''cites_id'') Null,
            pdf_url = pdf,
            cluster_id = or_js (getOpt (getOpt inline_links ''versions'') ''cluster_id'') Null,
            publisher = or_js (publicationInfo.publisher publicationInfo) Null\<rparr>)))))))))"

text \<open>\<open>results.map(...)\<close>: the first item that raises ends the map.\<close>

fun mapE :: "('a \<Rightarrow> exn + 'b) \<Rightarrow> 'a list \<Rightarrow> exn + 'b list" where
  "mapE f [] = Inr []"
| "mapE f (x # xs) = bindE (f x) (\<lambda>y. bindE (mapE f xs) (\<lambda>ys. Inr (y # ys)))"

definition parseOrganicResults :: "js \<Rightarrow> exn + publication list" where
  "parseOrganicResults results =
     (case results of
        Arr items \<Rightarrow> mapE parseOrganicResult items
      | _ \<Rightarrow> Inr [])"

definition isValidPublication :: "publication \<Rightarrow> bool" where
  "isValidPublication publication \<longleftrightarrow>
     truthy (title publication) \<and> truthy (google_scholar_id publication)"

definition filterValidPublications :: "publication list \<Rightarrow> publication list" where
  "filterValidPublications publications = filter isValidPublication publications"


section \<open>The outside world\<close>

record dbArticle =
  google_scholar_id :: js
  paper_title :: js
  authors :: js
  publication_year :: js
  journal :: js
  article_url :: js
  abstract_text :: js
  citation_count :: js
  cites_id :: js
  pdf_url :: js
  publisher :: js

text \<open>The calls that leave the process: the HTTP request of the search client (query
  and offset; engine, key and page size are constants), the two SQL statements of the
  article model, and the pause between two authors.\<close>

datatype io =
    HttpGet string int
  | SqlCount js
  | SqlInsert dbArticle
  | Delay nat

text \<open>The world is the list of the calls made so far and the state of the remote API and
  of the database, of which nothing is known. The environment says how the HTTP client
  and the database driver answer: \<open>axios_get\<close> resolves with the body of the response or
  rejects, \<open>pool_count\<close> answers \<open>SELECT COUNT( * )\<close> for an identifier, \<open>pool_insert\<close>
  answers the \<open>INSERT\<close> with the new row's identifier.\<close>

record 'w world =
  calls :: "io list"
  outside :: 'w

record 'w env =
  axios_get :: "string \<Rightarrow> int \<Rightarrow> 'w \<Rightarrow> (exn + js) \<times> 'w"
  pool_count :: "js \<Rightarrow> 'w \<Rightarrow> (exn + int) \<times> 'w"
  pool_insert :: "dbArticle \<Rightarrow> 'w \<Rightarrow> (exn + int) \<times> 'w"

definition logCall :: "io \<Rightarrow> 'w \<Rightarrow> 'w world \<Rightarrow> 'w world" where
  "logCall c x w = w\<lparr>calls := calls w @ [c], outside := x\<rparr>"

section \<open>Search client\<close>

text \<open>\<open>search\<close> of the SerpAPI service. The \<open>throw\<close> for an embedded error field is
  inside the \<open>try\<close> block, so the \<open>catch\<close> clause receives it like a rejection of the
  request.\<close>

definition search :: "'w env \<Rightarrow> string \<Rightarrow> int \<Rightarrow> 'w world \<Rightarrow> (exn + js) \<times> 'w world" where
  "search env query start w =
     (case axios_get env query start (outside w) of
        (outcome, x) \<Rightarrow>
          (case bindE outcome (\<lambda>data.
                  bindE (getProp data ''error'') (\<lambda>err.
                    if truthy err then Inl (Error (toString err)) else Inr data)) of
             Inr data \<Rightarrow> Inr data
           | Inl error \<Rightarrow>
               (case response error of
                  Some rdata \<Rightarrow>
                    bindE (getProp rdata ''error'') (\<lambda>err.
                      Inl (Error (''SerpAPI Error: ''
                                  @ toString (or_js err (Str (message error))))))
                | None \<Rightarrow> Inl (Error (''Network Error: '' @ message error))),
           logCall (HttpGet query start) x w))"

definition searchByAuthor :: "'w env \<Rightarrow> string \<Rightarrow> int \<Rightarrow> 'w world \<Rightarrow> (exn + js) \<times> 'w world" where
  "searchByAuthor env authorName start w =
     search env (''author:'' @ [CHR 0x22] @ authorName @ [CHR 0x22]) start w"

text \<open>The global error handler: status and message of the response for an error that
  reaches it. The handler starts from \<open>err.status || 500\<close>. The errors of the model carry
  no \<open>status\<close> property, as the objects made by \<open>new Error\<close>, by the engine and by the
  database driver, so the start is 500; an error of the HTTP client, which may carry the
  status of the response, never reaches the handler, because \<open>search\<close> replaces it by a
  new \<open>Error\<close>, and the handler is not described for it.\<close>

definition errorHandler :: "exn \<Rightarrow> nat \<times> string" where
  "errorHandler err =
     (let status0 = (500 :: nat);
          message0 = (if message err = [] then ''Internal Server Error'' else message err);
          status1 = (if includesStr message0 ''SerpAPI Error'' then 502 else status0);
          status2 = (if includesStr message0 ''Network Error'' then 503 else status1);
          status3 = (if code err = Some ''ECONNREFUSED'' then 503 else status2);
          message3 = (if code err = Some ''ECONNREFUSED''
                      then ''Database connection failed'' else message0);
          status4 = (if includesStr message3 ''required'' then 400 else status3)
      in (status4, message3))"

section \<open>Article model\<close>

definition create :: "'w env \<Rightarrow> dbArticle \<Rightarrow> 'w world \<Rightarrow> (exn + int) \<times> 'w world" where
  "create env articleData w =
     (let row = articleData\<lparr>dbArticle.citation_count :=
                   or_js (dbArticle.citation_count articleData) (Num 0)\<rparr>
      in case pool_insert env row (outside w) of
           (outcome, x) \<Rightarrow>
             (case outcome of
                Inr insertId \<Rightarrow> Inr insertId
              | Inl error \<Rightarrow>
                  if code error = Some ''ER_DUP_ENTRY''
                  then Inl (Error (''Article with google_scholar_id '' @ [CHR 0x27]
                                   @ toString (dbArticle.google_scholar_id articleData)
                                   @ [CHR 0x27] @ '' already exists''))
                  else Inl error,
              logCall (SqlInsert row) x w))"

definition existsByGoogleScholarId :: "'w env \<Rightarrow> js \<Rightarrow> 'w world \<Rightarrow> (exn + bool) \<times> 'w world" where
  "existsByGoogleScholarId env googleScholarId w =
     (case pool_count env googleScholarId (outside w) of
        (outcome, x) \<Rightarrow>
          (bindE outcome (\<lambda>count. Inr (count > 0)), logCall (SqlCount googleScholarId) x w))"

section \<open>Controller\<close>

record savedArticle =
  id' :: int
  google_scholar_id :: js
  title :: js
  citation_count :: js

record savedRef =
  article_id :: int
  title :: js
  author_searched :: string

record authorResult =
  author :: string
  fetched :: nat
  saved :: nat
  already_exists :: nat
  articles :: "savedArticle list"
  error :: "string option"

record results =
  authors :: "authorResult list"
  total_fetched :: nat
  total_saved :: nat
  total_already_exists :: nat
  articles_saved :: "savedRef list"

text \<open>The object \<open>dbArticle\<close> built for a candidate; \<open>sanitizeString\<close> raises on a truthy
  value that is not a string.\<close>

definition prepare :: "publication \<Rightarrow> exn + dbArticle" where
  "prepare article =
     bindE (sanitizeString (publication.title article)) (\<lambda>t.
     bindE (sanitizeString (publication.authors article)) (\<lambda>a.
     bindE (sanitizeString (publication.journal article)) (\<lambda>j.
     bindE (sanitizeString (abstract article)) (\<lambda>ab.
     bindE (sanitizeString (publication.publisher article)) (\<lambda>p.
       Inr \<lparr>dbArticle.google_scholar_id = publication.google_scholar_id article,
            paper_title = t,
            dbArticle.authors = a,
            dbArticle.publication_year = publication.publication_year article,
            dbArticle.journal = j,
            dbArticle.article_url = publication.article_url article,
            abstract_text = ab,
            dbArticle.citation_count = or_js (publication.citation_count article) (Num 0),
            dbArticle.cites_id = publication.cites_id article,
            dbArticle.pdf_url = publication.pdf_url article,
            dbArticle.publisher = p\<rparr>)))))"

definition countExisting :: "authorResult \<Rightarrow> authorResult" where
  "countExisting ar = ar\<lparr>already_exists := already_exists ar + 1\<rparr>"

definition countExistingTotal :: "results \<Rightarrow> results" where
  "countExistingTotal rs = rs\<lparr>total_already_exists := total_already_exists rs + 1\<rparr>"

definition countSaved :: "int \<Rightarrow> dbArticle \<Rightarrow> authorResult \<Rightarrow> authorResult" where
  "countSaved articleId dbArticle ar =
     ar\<lparr>saved := saved ar + 1,
        articles := articles ar @
          [\<lparr>id' = articleId,
            savedArticle.google_scholar_id = dbArticle.google_scholar_id dbArticle,
            savedArticle.title = paper_title dbArticle,
            savedArticle.citation_count = dbArticle.citation_count dbArticle\<rparr>]\<rparr>"

definition countSavedTotal :: "int \<Rightarrow> dbArticle \<Rightarrow> string \<Rightarrow> results \<Rightarrow> results" where
  "countSavedTotal articleId dbArticle authorName rs =
     rs\<lparr>total_saved := total_saved rs + 1,
        articles_saved := articles_saved rs @
          [\<lparr>article_id = articleId,
            savedRef.title = paper_title dbArticle,
            author_searched = authorName\<rparr>]\<rparr>"

text \<open>The loop over the valid articles of one author. Console output is left out. An
  exception that leaves the loop
  (from the existence check or from \<open>sanitizeString\<close>) keeps what the loop has counted
  so far; it is the first component of the result.\<close>

fun saveLoop ::
  "'w env \<Rightarrow> string \<Rightarrow> publication list \<Rightarrow> nat \<Rightarrow> authorResult \<Rightarrow> results \<Rightarrow> 'w world
     \<Rightarrow> exn option \<times> authorResult \<times> results \<times> 'w world" where
  "saveLoop env authorName [] savedCount ar rs w = (None, ar, rs, w)"
| "saveLoop env authorName (article # rest) savedCount ar rs w =
     (if savedCount \<ge> 3 then (None, ar, rs, w)
      else case existsByGoogleScholarId env (publication.google_scholar_id article) w of
        (Inl e, w1) \<Rightarrow> (Some e, ar, rs, w1)
      | (Inr exists, w1) \<Rightarrow>
          if exists
          then saveLoop env authorName rest savedCount
                 (countExisting ar) (countExistingTotal rs) w1
          else (case prepare article of
                  Inl e \<Rightarrow> (Some e, ar, rs, w1)
                | Inr dbArticle \<Rightarrow>
                    (case create env dbArticle w1 of
                       (Inr articleId, w2) \<Rightarrow>
                         saveLoop env authorName rest (savedCount + 1)
                           (countSaved articleId dbArticle ar)
                           (countSavedTotal articleId dbArticle authorName rs) w2
                     | (Inl saveError, w2) \<Rightarrow>
                         if includesStr (message saveError) ''already exists''
                         then saveLoop env authorName rest savedCount
                                (countExisting ar) (countExistingTotal rs) w2
                         else saveLoop env authorName rest savedCount ar rs w2)))"

text \<open>\<open>authorList.indexOf(authorName)\<close>.\<close>

fun indexOf :: "string list \<Rightarrow> string \<Rightarrow> int" where
  "indexOf [] a = - 1"
| "indexOf (x # xs) a =
     (if x = a then 0 else (let i = indexOf xs a in if i < 0 then - 1 else i + 1))"

definition pushAuthor :: "authorResult \<Rightarrow> results \<Rightarrow> results" where
  "pushAuthor ar rs = rs\<lparr>authors := results.authors rs @ [ar]\<rparr>"

definition newAuthorResult :: "string \<Rightarrow> authorResult" where
  "newAuthorResult authorName =
     \<lparr>author = authorName, fetched = 0, saved = 0, already_exists = 0, articles = [],
      error = None\<rparr>"

text \<open>The body of the loop over the authors: the \<open>try\<close> block, its \<open>catch\<close> clause, which
  stores the message of any exception in the author's result, and the \<open>push\<close> of that
  result.\<close>

definition processAuthor ::
  "'w env \<Rightarrow> string list \<Rightarrow> string \<Rightarrow> results \<times> 'w world \<Rightarrow> results \<times> 'w world" where
  "processAuthor env authorList authorName st =
     (case st of (rs, w) \<Rightarrow>
        (case searchByAuthor env authorName 0 w of
           (Inl e, w1) \<Rightarrow>
             (pushAuthor ((newAuthorResult authorName)\<lparr>error := Some (message e)\<rparr>) rs, w1)
         | (Inr searchData, w1) \<Rightarrow>
             (case bindE (getProp searchData ''organic_results'') (\<lambda>organic.
                     if \<not> truthy organic then Inr None
                     else bindE (getProp organic ''length'') (\<lambda>n.
                            if n = Num 0 then Inr None
                            else bindE (parseOrganicResults organic) (\<lambda>parsed. Inr (Some parsed)))) of
                Inl e \<Rightarrow>
                  (pushAuthor ((newAuthorResult authorName)\<lparr>error := Some (message e)\<rparr>) rs, w1)
              | Inr None \<Rightarrow>
                  (pushAuthor ((newAuthorResult authorName)\<lparr>error := Some ''No articles found''\<rparr>)
                     rs, w1)
              | Inr (Some parsedArticles) \<Rightarrow>
                  (let validArticles = filterValidPublications parsedArticles;
                       ar1 = (newAuthorResult authorName)\<lparr>fetched := length validArticles\<rparr>;
                       rs1 = rs\<lparr>total_fetched := total_fetched rs + length validArticles\<rparr>
                   in case saveLoop env authorName validArticles 0 ar1 rs1 w1 of
                        (Some e, ar2, rs2, w2) \<Rightarrow>
                          (pushAuthor (ar2\<lparr>error := Some (message e)\<rparr>) rs2, w2)
                      | (None, ar2, rs2, w2) \<Rightarrow>
                          (pushAuthor ar2 rs2,
                           if indexOf authorList authorName < int (length authorList) - 1
                           then logCall (Delay 2000) (outside w2) w2 else w2)))))"

text \<open>\<open>for (const authorName of authorList)\<close>.\<close>

fun authorsLoop ::
  "'w env \<Rightarrow> string list \<Rightarrow> string list \<Rightarrow> results \<times> 'w world \<Rightarrow> results \<times> 'w world" where
  "authorsLoop env authorList [] st = st"
| "authorsLoop env authorList (authorName # rest) st =
     authorsLoop env authorList rest (processAuthor env authorList authorName st)"

text \<open>The handler \<open>fetchArticlesByAuthors\<close> takes the value of \<open>req.query.authors\<close>.
  The response: status 400 with an error message, status 200 with the message and
  the results (the body's \<open>summary\<close>, \<open>authors\<close> and \<open>articles_saved\<close> are the fields of
  \<open>results\<close>), or an exception handed to \<open>next\<close>.\<close>

datatype reply =
    Status400 string
  | Status200 string results
  | NextError exn

definition emptyResults :: results where
  "emptyResults =
     \<lparr>authors = [], total_fetched = 0, total_saved = 0, total_already_exists = 0,
      articles_saved = []\<rparr>"

text \<open>\<open>authors.split(',').map(a => a.trim()).filter(a => a)\<close>.\<close>

definition authorListOf :: "string \<Rightarrow> string list" where
  "authorListOf s = filter (\<lambda>a. a \<noteq> []) (map trim (splitStr '','' s))"

definition fetchArticlesByAuthors :: "'w env \<Rightarrow> js \<Rightarrow> 'w world \<Rightarrow> reply \<times> 'w world" where
  "fetchArticlesByAuthors env query_authors w =
     (if \<not> truthy query_authors
      then (Status400 (''Query parameter '' @ [CHR 0x22] @ ''authors'' @ [CHR 0x22]
              @ '' is required (comma-separated list of 3 author names)''), w)
      else case query_authors of
        Str s \<Rightarrow>
          (let authorList = authorListOf s
           in if length authorList \<noteq> 3
              then (Status400 ''Exactly 3 author names are required, separated by commas'', w)
              else (case authorsLoop env authorList authorList (emptyResults, w) of
                      (rs, w') \<Rightarrow>
                        (Status200 (''Processed '' @ showNat (length authorList) @ '' authors'')
                           rs, w')))
      | _ \<Rightarrow> (NextError (TypeError ''authors.split is not a function''), w))"


section \<open>A sample run\<close>

text \<open>An environment for concrete runs. The search for author \<open>Y\<close> times out; every other
  search returns five items. The database is the list of the stored identifiers: an
  insert of a stored identifier fails as a duplicate, any other insert appends.\<close>

definition demoItem :: "string \<Rightarrow> js" where
  "demoItem i = Obj [(''result_id'', Str i), (''title'', Str i)]"

definition demoEnv :: "js list env" where
  "demoEnv =
     \<lparr>axios_get = (\<lambda>q start x.
        if q = ''author:'' @ [CHR 0x22] @ ''Y'' @ [CHR 0x22]
        then (Inl (AxiosError ''timeout of 30000ms exceeded'' None), x)
        else (Inr (Obj [(''organic_results'',
                Arr [demoItem ''p'', demoItem ''q'', demoItem ''r'', demoItem ''s'',
                     demoItem ''t''])]), x)),
      pool_count = (\<lambda>i x. (Inr (if i \<in> set x then 1 else 0), x)),
      pool_insert = (\<lambda>row x.
        if dbArticle.google_scholar_id row \<in> set x
        then (Inl (DriverError ''ER_DUP_ENTRY'' ''Duplicate entry''), x)
        else (Inr (int (length x) + 1), x @ [dbArticle.google_scholar_id row]))\<rparr>"

definition demoWorld :: "js list world" where
  "demoWorld = \<lparr>calls = [], outside = [Str ''q'']\<rparr>"

text \<open>The results of the handler for the authors \<open>X,Y,Z\<close> in this environment.\<close>

definition demoResults :: results where
  "demoResults =
     \<lparr>results.authors =
        [\<lparr>author = ''X'', fetched = 5, saved = 3, already_exists = 1,
           articles =
             [\<lparr>id' = 2, savedArticle.google_scholar_id = Str ''p'',
                savedArticle.title = Str ''p'', savedArticle.citation_count = Num 0\<rparr>,
              \<lparr>id' = 3, savedArticle.google_scholar_id = Str ''r'',
                savedArticle.title = Str ''r'', savedArticle.citation_count = Num 0\<rparr>,
              \<lparr>id' = 4, savedArticle.google_scholar_id = Str ''s'',
                savedArticle.title = Str ''s'', savedArticle.citation_count = Num 0\<rparr>],
           error = None\<rparr>,
         \<lparr>author = ''Y'', fetched = 0, saved = 0, already_exists = 0, articles = [],
           error = Some ''Network Error: timeout of 30000ms exceeded''\<rparr>,
         \<lparr>author = ''Z'', fetched = 5, saved = 1, already_exists = 4,
           articles =
             [\<lparr>id' = 5, savedArticle.google_scholar_id = Str ''t'',
                savedArticle.title = Str ''t'', savedArticle.citation_count = Num 0\<rparr>],
           error = None\<rparr>],
      total_fetched = 10, total_saved = 4, total_already_exists = 5,
      articles_saved =
        [\<lparr>article_id = 2, savedRef.title = Str ''p'', author_searched = ''X''\<rparr>,
         \<lparr>article_id = 3, savedRef.title = Str ''r'', author_searched = ''X''\<rparr>,
         \<lparr>article_id = 4, savedRef.title = Str ''s'', author_searched = ''X''\<rparr>,
         \<lparr>article_id = 5, savedRef.title = Str ''t'', author_searched = ''Z''\<rparr>]\<rparr>"

text \<open>A parsed candidate with an identifier and a title only.\<close>

definition demoArticle :: "string \<Rightarrow> publication" where
  "demoArticle i =
     \<lparr>publication.google_scholar_id = Str i, publication.title = Str i,
      publication.authors = Null, publication.publication_year = Null,
      publication.journal = Null, publication.article_url = Null, abstract = Null,
      publication.citation_count = Num 0, publication.cites_id = Null,
      publication.pdf_url = Null, cluster_id = Null, publication.publisher = Null\<rparr>"

text \<open>The row prepared for such a candidate.\<close>

definition demoRow :: "string \<Rightarrow> dbArticle" where
  "demoRow i =
     \<lparr>dbArticle.google_scholar_id = Str i, paper_title = Str i, dbArticle.authors = Null,
      dbArticle.publication_year = Null, dbArticle.journal = Null,
      dbArticle.article_url = Null, abstract_text = Null,
      dbArticle.citation_count = Num 0, dbArticle.cites_id = Null,
      dbArticle.pdf_url = Null, dbArticle.publisher = Null\<rparr>"

text \<open>A database in which no identifier is found by the existence check and inserts fail:
  for \<open>p\<close> as a duplicate (the row arrived between check and insert), for \<open>r\<close> with a
  deadlock, for \<open>s\<close> with an error raised by a trigger.\<close>

definition raceEnv :: "unit env" where
  "raceEnv =
     \<lparr>axios_get = (\<lambda>q start x. (Inr (Obj []), x)),
      pool_count = (\<lambda>i x. (Inr 0, x)),
      pool_insert = (\<lambda>row x.
        if dbArticle.google_scholar_id row = Str ''p''
        then (Inl (DriverError ''ER_DUP_ENTRY'' ''Duplicate entry''), x)
        else if dbArticle.google_scholar_id row = Str ''r''
        then (Inl (DriverError ''ER_LOCK_DEADLOCK'' ''Deadlock found when trying to get lock''), x)
        else if dbArticle.google_scholar_id row = Str ''s''
        then (Inl (DriverError ''ER_SIGNAL_EXCEPTION'' ''Title already exists in archive''), x)
        else (Inr 1, x))\<rparr>"

definition raceWorld :: "unit world" where
  "raceWorld = \<lparr>calls = [], outside = ()\<rparr>"

text \<open>An environment whose HTTP client gives one fixed outcome; its database refuses
  every statement.\<close>

definition answering :: "exn + js \<Rightarrow> 'w env" where
  "answering outcome =
     \<lparr>axios_get = (\<lambda>q start x. (outcome, x)),
      pool_count = (\<lambda>i x. (Inl (DriverError ''ECONNREFUSED'' ''connect ECONNREFUSED''), x)),
      pool_insert = (\<lambda>row x. (Inl (DriverError ''ECONNREFUSED'' ''connect ECONNREFUSED''), x))\<rparr>"

section \<open>Items of the expected shape\<close>

text \<open>The result items on which the parser returns a record: the item is an object (or
  any value other than \<open>null\<close> and \<open>undefined\<close>), the summary of its publication info is a
  string or falsy, and every entry of its resource list that \<open>find\<close> visits, that is every
  entry before the first entry whose \<open>file_format\<close> is a string equal to \<open>PDF\<close> in upper case,
  is a value other than \<open>null\<close> and \<open>undefined\<close> whose \<open>file_format\<close> is a string or absent.
  The entries after the first PDF entry are not read.\<close>

definition stringOrAbsent :: "js \<Rightarrow> bool" where
  "stringOrAbsent v = (case v of Undefined \<Rightarrow> True | Null \<Rightarrow> True | Str s \<Rightarrow> True | _ \<Rightarrow> False)"

definition stringOrFalsy :: "js \<Rightarrow> bool" where
  "stringOrFalsy v = (case v of Str s \<Rightarrow> True | _ \<Rightarrow> \<not> truthy v)"

definition resourceOk :: "js \<Rightarrow> bool" where
  "resourceOk r = (r \<noteq> Undefined \<and> r \<noteq> Null \<and> stringOrAbsent (getOpt r ''file_format''))"

definition isPdfEntry :: "js \<Rightarrow> bool" where
  "isPdfEntry r = (case getOpt r ''file_format'' of Str s \<Rightarrow> toUpperCase s = ''PDF'' | _ \<Rightarrow> False)"

definition visited :: "js list \<Rightarrow> js list" where
  "visited rs = takeWhile (\<lambda>r. \<not> isPdfEntry r) rs"

definition parsable :: "js \<Rightarrow> bool" where
  "parsable result =
     (result \<noteq> Undefined \<and> result \<noteq> Null
      \<and> (if truthy (getOpt result ''publication_info'')
          then stringOrFalsy (getOpt (getOpt result ''publication_info'') ''summary'')
          else True)
      \<and> (case getOpt result ''resources'' of
            Arr rs \<Rightarrow> list_all resourceOk (visited rs)
          | _ \<Rightarrow> True))"

text \<open>An item with a summary and a resource list whose second entry is the first PDF
  entry and whose third entry is \<open>null\<close>; the same item with the \<open>null\<close> entry first; and an
  item whose summary is the empty string.\<close>

definition shapedItem :: js where
  "shapedItem =
     Obj [(''result_id'', Str ''x''), (''title'', Str ''t''),
          (''publication_info'', Obj [(''summary'', Str ''A - B, 2005 - C'')]),
          (''resources'',
             Arr [Obj [(''file_format'', Str ''HTML''), (''link'', Str ''h'')],
                  Obj [(''file_format'', Str ''Pdf''), (''link'', Str ''u'')],
                  Null])]"

definition misshapedItem :: js where
  "misshapedItem =
     Obj [(''result_id'', Str ''x''), (''title'', Str ''t''),
          (''publication_info'', Obj [(''summary'', Str ''A - B, 2005 - C'')]),
          (''resources'',
             Arr [Null,
                  Obj [(''file_format'', Str ''Pdf''), (''link'', Str ''u'')]])]"

definition bareItem :: js where
  "bareItem =
     Obj [(''result_id'', Str ''x''), (''title'', Str ''t''),
          (''publication_info'', Obj [(''summary'', Str [])]),
          (''resources'', Arr [Obj [(''link'', Str ''h'')]])]"

text \<open>The source's nested citation count, \<open>result.inline_links?.cited_by?.total\<close>.\<close>

definition citedByTotal :: "js \<Rightarrow> js" where
  "citedByTotal result = getOpt (getOpt (getOpt result ''inline_links'') ''cited_by'') ''total''"

section \<open>The orchestrator's algorithm in the words of the specification\<close>

text \<open>A second description of the processing of the authors, written from the numbered
  steps of the specification's pipeline orchestrator over the HTTP client and the database
  driver, and not from the controller's code; the controller is compared with it below. It
  gives a result where the steps say what happens, and \<open>None\<close> elsewhere: where the search
  fails (the text of that failure is the implementation's), where the body of the response
  is not a JSON object or its results are not a list, where the parser, the existence check
  or the sanitizer raises, and where an insert fails with an error other than a duplicate
  entry whose message contains \<open>already exists\<close> (the controller counts that record where
  the specification skips it).\<close>

text \<open>A record is valid iff both its title and its external identifier are non-empty.\<close>

definition specValid :: "publication \<Rightarrow> bool" where
  "specValid p = (truthy (publication.title p) \<and> truthy (publication.google_scholar_id p))"

text \<open>Search client: the query restricts the results to the author, the offset is 0; the
  raw result is the body of the response when the request succeeds and the body carries no
  error field.\<close>

definition specFetch :: "'w env \<Rightarrow> string \<Rightarrow> 'w world \<Rightarrow> (js \<times> 'w world) option" where
  "specFetch env name w =
     (let q = ''author:'' @ [CHR 0x22] @ name @ [CHR 0x22]
      in case axios_get env q 0 (outside w) of
           (outcome, x) \<Rightarrow>
             (case outcome of
                Inl e \<Rightarrow> None
              | Inr body \<Rightarrow>
                  (case body of
                     Obj kvs \<Rightarrow>
                       if truthy (getOpt body ''error'') then None
                       else Some (body, logCall (HttpGet q 0) x w)
                   | _ \<Rightarrow> None)))"

text \<open>Step 4: the valid records in their order, until three have been saved for this
  author. A record that exists counts in \<open>already_exists\<close> of the author and of the run.
  Otherwise its fields are sanitized and the insert is attempted: a success counts in
  \<open>saved\<close> and adds a reference to the author's list and to the run's list; a duplicate
  entry counts like a record that exists; any other failure changes no counter. The two
  references have the fields of the response body: identifier, external identifier, title
  and citation count in the author's list; identifier, title and author searched in the
  run's list.\<close>

fun specPersist ::
  "'w env \<Rightarrow> string \<Rightarrow> publication list \<Rightarrow> nat \<Rightarrow> authorResult \<Rightarrow> results \<Rightarrow> 'w world
     \<Rightarrow> (authorResult \<times> results \<times> 'w world) option" where
  "specPersist env name [] n ar rs w = Some (ar, rs, w)"
| "specPersist env name (p # ps) n ar rs w =
     (if n \<ge> 3 then Some (ar, rs, w)
      else case pool_count env (publication.google_scholar_id p) (outside w) of
        (Inl e, x) \<Rightarrow> None
      | (Inr c, x) \<Rightarrow>
          (let w1 = logCall (SqlCount (publication.google_scholar_id p)) x w;
               hit = ar\<lparr>already_exists := already_exists ar + 1\<rparr>;
               hitTotal = rs\<lparr>total_already_exists := total_already_exists rs + 1\<rparr>
           in if c > 0 then specPersist env name ps n hit hitTotal w1
              else (case prepare p of
                      Inl e \<Rightarrow> None
                    | Inr row \<Rightarrow>
                        (case pool_insert env row (outside w1) of
                           (Inr i, x2) \<Rightarrow>
                             specPersist env name ps (n + 1)
                               (ar\<lparr>saved := saved ar + 1,
                                   articles := articles ar @
                                     [\<lparr>id' = i,
                                       savedArticle.google_scholar_id = dbArticle.google_scholar_id row,
                                       savedArticle.title = paper_title row,
                                       savedArticle.citation_count = dbArticle.citation_count row\<rparr>]\<rparr>)
                               (rs\<lparr>total_saved := total_saved rs + 1,
                                   articles_saved := articles_saved rs @
                                     [\<lparr>article_id = i, savedRef.title = paper_title row,
                                       author_searched = name\<rparr>]\<rparr>)
                               (logCall (SqlInsert row) x2 w1)
                         | (Inl e, x2) \<Rightarrow>
                             if code e = Some ''ER_DUP_ENTRY''
                             then specPersist env name ps n hit hitTotal
                                    (logCall (SqlInsert row) x2 w1)
                             else if includesStr (message e) ''already exists'' then None
                             else specPersist env name ps n ar rs
                                    (logCall (SqlInsert row) x2 w1)))))"

text \<open>Steps 1 to 5 for one author: fetch; with zero results the entry carries
  \<open>No articles found\<close>; otherwise parse every item, keep the valid records, record their
  number in \<open>fetched\<close>, persist them, and pause unless this is the last author.\<close>

definition specAuthor ::
  "'w env \<Rightarrow> bool \<Rightarrow> string \<Rightarrow> results \<times> 'w world \<Rightarrow> (results \<times> 'w world) option" where
  "specAuthor env isLast name st =
     (case st of (rs, w) \<Rightarrow>
        (case specFetch env name w of
           None \<Rightarrow> None
         | Some (raw, w1) \<Rightarrow>
             (let found = getOpt raw ''organic_results'';
                  none = (rs\<lparr>authors := results.authors rs @
                            [\<lparr>author = name, fetched = 0, saved = 0, already_exists = 0,
                              articles = [], error = Some ''No articles found''\<rparr>]\<rparr>, w1)
              in if \<not> truthy found then Some none
                 else (case found of
                         Arr items \<Rightarrow>
                           if items = [] then Some none
                           else (case mapE parseOrganicResult items of
                                   Inl e \<Rightarrow> None
                                 | Inr parsed \<Rightarrow>
                                     (let valid = filter specValid parsed
                                      in case specPersist env name valid 0
                                             \<lparr>author = name, fetched = length valid, saved = 0,
                                              already_exists = 0, articles = [], error = None\<rparr>
                                             (rs\<lparr>total_fetched := total_fetched rs + length valid\<rparr>)
                                             w1 of
                                           None \<Rightarrow> None
                                         | Some (ar, rs2, w2) \<Rightarrow>
                                             Some (rs2\<lparr>authors := results.authors rs2 @ [ar]\<rparr>,
                                                   if isLast then w2
                                                   else logCall (Delay 2000) (outside w2) w2)))
                       | _ \<Rightarrow> None))))"

text \<open>The authors \<open>names\<close>, one after the other; \<open>later\<close> are the authors of the list that
  follow them.\<close>

fun specAuthors ::
  "'w env \<Rightarrow> string list \<Rightarrow> string list \<Rightarrow> results \<times> 'w world
     \<Rightarrow> (results \<times> 'w world) option" where
  "specAuthors env later [] st = Some st"
| "specAuthors env later (name # rest) st =
     (case specAuthor env (rest = [] \<and> later = []) name st of
        None \<Rightarrow> None
      | Some st1 \<Rightarrow> specAuthors env later rest st1)"

text \<open>An environment for a run with records of each kind. The search for author \<open>Y\<close>
  times out. The search for \<open>X\<close> returns an item without title and the items \<open>q\<close> and \<open>p\<close>,
  the search for any other author the items \<open>p\<close> and \<open>r\<close>. The database is that of the
  sample run, in which \<open>q\<close> is stored.\<close>

definition mixedEnv :: "js list env" where
  "mixedEnv =
     \<lparr>axios_get = (\<lambda>q start x.
        if q = ''author:'' @ [CHR 0x22] @ ''Y'' @ [CHR 0x22]
        then (Inl (AxiosError ''timeout of 30000ms exceeded'' None), x)
        else if q = ''author:'' @ [CHR 0x22] @ ''X'' @ [CHR 0x22]
        then (Inr (Obj [(''organic_results'',
                Arr [Obj [(''result_id'', Str ''n'')], demoItem ''q'', demoItem ''p''])]), x)
        else (Inr (Obj [(''organic_results'', Arr [demoItem ''p'', demoItem ''r''])]), x)),
      pool_count = (\<lambda>i x. (Inr (if i \<in> set x then 1 else 0), x)),
      pool_insert = (\<lambda>row x.
        if dbArticle.google_scholar_id row \<in> set x
        then (Inl (DriverError ''ER_DUP_ENTRY'' ''Duplicate entry''), x)
        else (Inr (int (length x) + 1), x @ [dbArticle.google_scholar_id row]))\<rparr>"

text \<open>The search call for an author, and the summary and the world of the run for
  \<open>X,Y,Z\<close> from the sample world: after author \<open>X\<close>, and at the end.\<close>

definition mixedQuery :: "string \<Rightarrow> io" where
  "mixedQuery name = HttpGet (''author:'' @ [CHR 0x22] @ name @ [CHR 0x22]) 0"

definition mixedAfterX :: "results \<times> js list world" where
  "mixedAfterX =
     (\<lparr>results.authors =
         [\<lparr>author = ''X'', fetched = 2, saved = 1, already_exists = 1,
            articles =
              [\<lparr>id' = 2, savedArticle.google_scholar_id = Str ''p'',
                 savedArticle.title = Str ''p'', savedArticle.citation_count = Num 0\<rparr>],
            error = None\<rparr>],
       total_fetched = 2, total_saved = 1, total_already_exists = 1,
       articles_saved =
         [\<lparr>article_id = 2, savedRef.title = Str ''p'', author_searched = ''X''\<rparr>]\<rparr>,
      \<lparr>calls = [mixedQuery ''X'', SqlCount (Str ''q''), SqlCount (Str ''p''),
                SqlInsert (demoRow ''p''), Delay 2000],
       outside = [Str ''q'', Str ''p'']\<rparr>)"

definition mixedEnd :: "results \<times> js list world" where
  "mixedEnd =
     (\<lparr>results.authors =
         [\<lparr>author = ''X'', fetched = 2, saved = 1, already_exists = 1,
            articles =
              [\<lparr>id' = 2, savedArticle.google_scholar_id = Str ''p'',
                 savedArticle.title = Str ''p'', savedArticle.citation_count = Num 0\<rparr>],
            error = None\<rparr>,
          \<lparr>author = ''Y'', fetched = 0, saved = 0, already_exists = 0, articles = [],
            error = Some ''Network Error: timeout of 30000ms exceeded''\<rparr>,
          \<lparr>author = ''Z'', fetched = 2, saved = 1, already_exists = 1,
            articles =
              [\<lparr>id' = 3, savedArticle.google_scholar_id = Str ''r'',
                 savedArticle.title = Str ''r'', savedArticle.citation_count = Num 0\<rparr>],
            error = None\<rparr>],
       total_fetched = 4, total_saved = 2, total_already_exists = 2,
       articles_saved =
         [\<lparr>article_id = 2, savedRef.title = Str ''p'', author_searched = ''X''\<rparr>,
          \<lparr>article_id = 3, savedRef.title = Str ''r'', author_searched = ''Z''\<rparr>]\<rparr>,
      \<lparr>calls = [mixedQuery ''X'', SqlCount (Str ''q''), SqlCount (Str ''p''),
                SqlInsert (demoRow ''p''), Delay 2000,
                mixedQuery ''Y'',
                mixedQuery ''Z'', SqlCount (Str ''p''), SqlCount (Str ''r''),
                SqlInsert (demoRow ''r'')],
       outside = [Str ''q'', Str ''p'', Str ''r'']\<rparr>)"

section \<open>Year tokens of a segment\<close>






section \<open>Properties\<close>

declare showNat.simps [simp del]
declare wsWords.simps [simp del]

subsection \<open>Sanitizing\<close>



lemma rtrim_Cons:
  "rev (dropWhile P (rev (a # x))) =
     (if (\<forall>y\<in>set x. P y) \<and> P a then [] else a # rev (dropWhile P (rev x)))"
proof (cases "\<forall>y\<in>set x. P y")
  case True
  then have "dropWhile P (rev x @ [a]) = dropWhile P [a]"
    by (intro dropWhile_append2) simp
  moreover have "dropWhile P (rev x) = []" using True by simp
  ultimately show ?thesis using True by simp
next
  case False
  then obtain y where "y \<in> set (rev x)" "\<not> P y" by auto
  then have "dropWhile P (rev x @ [a]) = dropWhile P (rev x) @ [a]"
    by (rule dropWhile_append1)
  then show ?thesis using False by simp
qed

lemma rtrim_append_nonws:
  "\<forall>x\<in>set t. \<not> P x \<Longrightarrow>
     rev (dropWhile P (rev (t @ u))) = t @ rev (dropWhile P (rev u))"
proof (induction t)
  case Nil
  show ?case by simp
next
  case (Cons a t)
  have "rev (dropWhile P (rev (a # (t @ u)))) = a # rev (dropWhile P (rev (t @ u)))"
    unfolding rtrim_Cons[of P a] using Cons.prems by simp
  then show ?case using Cons by simp
qed

lemma replaceSpaceRuns_nonws:
  "\<forall>x\<in>set t. \<not> isSpace x \<Longrightarrow> replaceSpaceRuns (t @ u) = t @ replaceSpaceRuns u"
  by (induction t) auto

lemma dropWhile_all: "\<forall>x\<in>set xs. P x \<Longrightarrow> dropWhile P xs = []"
  by simp

lemma replaceSpaceRuns_allws:
  "\<forall>x\<in>set s. isSpace x \<Longrightarrow> replaceSpaceRuns s = (if s = [] then [] else '' '')"
proof (cases s)
  case Nil
  then show ?thesis by simp
next
  case (Cons a list)
  assume "\<forall>x\<in>set s. isSpace x"
  then have "isSpace a" "\<forall>x\<in>set list. isSpace x" using Cons by simp_all
  then show ?thesis using Cons by (simp add: dropWhile_all)
qed

lemma replaceSpaceRuns_hd:
  "replaceSpaceRuns s =
     (if s \<noteq> [] \<and> isSpace (hd s) then CHR '' '' # replaceSpaceRuns (dropWhile isSpace s)
      else replaceSpaceRuns (dropWhile isSpace s))"
  by (cases s) auto

lemma isSpace_space: "isSpace CHR '' ''"
  by (simp add: isSpace_def)

lemma trim_sanitized: "trim (replaceSpaceRuns s) = joinWords (wsWords s)"
proof (induction s rule: wsWords.induct)
  case (1 s)
  show ?case
  proof (cases "dropWhile isSpace s")
    case Nil
    then have "\<forall>x\<in>set s. isSpace x" by (simp add: dropWhile_eq_Nil_conv)
    then have "replaceSpaceRuns s = (if s = [] then [] else '' '')"
      by (rule replaceSpaceRuns_allws)
    moreover have "wsWords s = []" by (subst wsWords.simps) (simp add: Nil)
    ultimately show ?thesis
      by (simp add: trim_def isSpace_space)
  next
    case (Cons c cs)
    define d where "d = c # cs"
    define t where "t = takeWhile (\<lambda>x. \<not> isSpace x) d"
    define u where "u = dropWhile (\<lambda>x. \<not> isSpace x) d"
    have c: "\<not> isSpace c" using Cons hd_dropWhile[of isSpace s] by auto
    have t: "t \<noteq> []" "\<forall>x\<in>set t. \<not> isSpace x"
      using c by (auto simp: t_def d_def dest: set_takeWhileD)
    have d: "d = t @ u" by (simp add: t_def u_def)
    have W: "wsWords s = t # wsWords u"
      by (subst wsWords.simps) (simp add: Cons t_def u_def d_def)
    have IH: "trim (replaceSpaceRuns u) = joinWords (wsWords u)"
      using 1[OF Cons] by (simp add: u_def d_def)
    have Rd: "replaceSpaceRuns d = t @ replaceSpaceRuns u"
      unfolding d using t(2) by (rule replaceSpaceRuns_nonws)
    have hdt: "\<not> isSpace (hd (t @ replaceSpaceRuns u))" using t by (cases t) auto
    have "dropWhile isSpace (replaceSpaceRuns s) = t @ replaceSpaceRuns u"
    proof -
      have "dropWhile isSpace (replaceSpaceRuns s) = dropWhile isSpace (replaceSpaceRuns d)"
        using replaceSpaceRuns_hd[of s] Cons by (simp add: d_def isSpace_space)
      also have "\<dots> = t @ replaceSpaceRuns u"
        unfolding Rd using t by (cases t) auto
      finally show ?thesis .
    qed
    then have T: "trim (replaceSpaceRuns s) = t @ rev (dropWhile isSpace (rev (replaceSpaceRuns u)))"
      using t by (simp add: trim_def rtrim_append_nonws del: rev_append)
    show ?thesis
    proof (cases "dropWhile isSpace u")
      case Nil
      then have all: "\<forall>x\<in>set u. isSpace x" by (simp add: dropWhile_eq_Nil_conv)
      then have "replaceSpaceRuns u = (if u = [] then [] else '' '')"
        by (rule replaceSpaceRuns_allws)
      moreover have "wsWords u = []" by (subst wsWords.simps) (simp add: Nil)
      ultimately show ?thesis using T W by (simp add: isSpace_space)
    next
      case (Cons c' cs')
      then have un: "u \<noteq> []" by auto
      have hu: "isSpace (hd u)"
        using un hd_dropWhile[of "\<lambda>x. \<not> isSpace x" d] by (simp add: u_def)
      have c': "\<not> isSpace c'" using Cons hd_dropWhile[of isSpace u] by auto
      have "wsWords u = takeWhile (\<lambda>x. \<not> isSpace x) (c' # cs')
                 # wsWords (dropWhile (\<lambda>x. \<not> isSpace x) (c' # cs'))"
        by (subst wsWords.simps) (simp add: Cons)
      then obtain v vs where Wu: "wsWords u = v # vs" by blast
      have Ru: "replaceSpaceRuns u = CHR '' '' # replaceSpaceRuns (c' # cs')"
        using replaceSpaceRuns_hd[of u] un hu Cons by simp
      have R': "replaceSpaceRuns (c' # cs') = c' # replaceSpaceRuns cs'"
        using c' by simp
      have "trim (replaceSpaceRuns u) = rev (dropWhile isSpace (rev (replaceSpaceRuns (c' # cs'))))"
        unfolding Ru trim_def using c' by (simp add: isSpace_space)
      moreover have "rev (dropWhile isSpace (rev (replaceSpaceRuns u)))
          = CHR '' '' # rev (dropWhile isSpace (rev (replaceSpaceRuns (c' # cs'))))"
        unfolding Ru rtrim_Cons[of isSpace "CHR '' ''"] using c' R' by auto
      ultimately show ?thesis using T W Wu IH by simp
    qed
  qed
qed


lemma wsWords_allws:
  assumes "\<forall>c\<in>set s. isSpace c"
  shows "wsWords s = []"
proof -
  have "dropWhile isSpace s = []" using assms by simp
  then show ?thesis by (subst wsWords.simps) (simp only: list.case)
qed

lemma successively_True: "successively (\<lambda>x y. True) w"
  by (induction w) (auto simp: successively_Cons)

lemma wsWords_good:
  "w \<in> set (wsWords s) \<Longrightarrow> w \<noteq> [] \<and> (\<forall>c\<in>set w. \<not> isSpace c)"
proof (induction s rule: wsWords.induct)
  case (1 s)
  show ?case
  proof (cases "dropWhile isSpace s")
    case Nil
    have "wsWords s = []" by (subst wsWords.simps) (simp add: Nil)
    then show ?thesis using 1(2) by simp
  next
    case (Cons c cs)
    have c: "\<not> isSpace c" using Cons hd_dropWhile[of isSpace s] by auto
    have W: "wsWords s = takeWhile (\<lambda>x. \<not> isSpace x) (c # cs)
                # wsWords (dropWhile (\<lambda>x. \<not> isSpace x) (c # cs))"
      by (subst wsWords.simps) (simp add: Cons)
    show ?thesis
    proof (cases "w = takeWhile (\<lambda>x. \<not> isSpace x) (c # cs)")
      case True
      then show ?thesis using c by (auto dest: set_takeWhileD)
    next
      case False
      moreover have "w \<in> set (takeWhile (\<lambda>x. \<not> isSpace x) (c # cs)
                # wsWords (dropWhile (\<lambda>x. \<not> isSpace x) (c # cs)))"
        using 1(2) unfolding W .
      ultimately have "w \<in> set (wsWords (dropWhile (\<lambda>x. \<not> isSpace x) (c # cs)))"
        unfolding set_simps by blast
      then show ?thesis by (rule 1(1)[OF Cons])
    qed
  qed
qed

lemma successively_nonws:
  "\<forall>c\<in>set w. \<not> isSpace c \<Longrightarrow> successively (\<lambda>a b. \<not> (isSpace a \<and> isSpace b)) w"
  by (induction w) (auto simp: successively_Cons)

lemma joinWords_props:
  "\<forall>w\<in>set ws. w \<noteq> [] \<and> (\<forall>c\<in>set w. \<not> isSpace c) \<Longrightarrow> ws \<noteq> [] \<Longrightarrow>
     joinWords ws \<noteq> [] \<and> \<not> isSpace (hd (joinWords ws)) \<and> \<not> isSpace (last (joinWords ws))
     \<and> successively (\<lambda>a b. \<not> (isSpace a \<and> isSpace b)) (joinWords ws)"
proof (induction ws rule: joinWords.induct)
  case 1
  then show ?case by simp
next
  case (2 w)
  then show ?case by (simp add: successively_True)
next
  case (3 w v ws)
  define r where "r = joinWords (v # ws)"
  let ?Q = "\<lambda>a b. \<not> (isSpace a \<and> isSpace b)"
  have IH: "r \<noteq> []" "\<not> isSpace (hd r)" "\<not> isSpace (last r)" "successively ?Q r"
    using 3 unfolding r_def by simp_all
  have w: "w \<noteq> []" "\<forall>c\<in>set w. \<not> isSpace c" using 3(2) by simp_all
  then have hl: "\<not> isSpace (hd w)" "\<not> isSpace (last w)" by simp_all
  have J: "joinWords (w # v # ws) = w @ CHR '' '' # r" by (simp add: r_def)
  have s1: "successively ?Q w" using w(2) by (rule successively_nonws)
  have s2: "successively ?Q (CHR '' '' # r)"
    unfolding successively_Cons[of ?Q "CHR '' ''" r] using IH by blast
  have s3: "successively ?Q (w @ CHR '' '' # r)"
    unfolding successively_append_iff using s1 s2 hl by blast
  have h: "hd (w @ CHR '' '' # r) = hd w" and l: "last (w @ CHR '' '' # r) = last r"
    using w(1) IH(1) by simp_all
  have n: "w @ CHR '' '' # r \<noteq> []" by simp
  show ?case unfolding J h l using n s3 hl IH(3) by (intro conjI)
qed

text \<open>
  C10: \<open>sanitizeString\<close> returns \<open>null\<close> for an absent value and for the empty string. For
  a non-empty string it returns the words of the input joined by single spaces, that is the
  input with every maximal run of white space replaced by one space and trimmed at both
  ends: a string of white space only gives the empty string, and the result has no white
  space at its start or end and no two white-space characters in a row.
\<close>

theorem sanitizeString_spec:
  "sanitizeString Undefined = Inr Null \<and> sanitizeString Null = Inr Null
   \<and> sanitizeString (Str []) = Inr Null
   \<and> (s \<noteq> [] \<longrightarrow>
        (\<exists>out. sanitizeString (Str s) = Inr (Str out)
           \<and> out = joinWords (wsWords s)
           \<and> ((\<forall>c\<in>set s. isSpace c) \<longrightarrow> out = [])
           \<and> (out \<noteq> [] \<longrightarrow> \<not> isSpace (hd out) \<and> \<not> isSpace (last out))
           \<and> (\<forall>i. Suc i < length out \<longrightarrow> \<not> (isSpace (out ! i) \<and> isSpace (out ! Suc i)))))"
proof -
  have "joinWords (wsWords s) \<noteq> [] \<longrightarrow>
          \<not> isSpace (hd (joinWords (wsWords s))) \<and> \<not> isSpace (last (joinWords (wsWords s)))"
    using joinWords_props[of "wsWords s"] wsWords_good[of _ s] by (cases "wsWords s = []") auto
  moreover have "successively (\<lambda>a b. \<not> (isSpace a \<and> isSpace b)) (joinWords (wsWords s))"
    using joinWords_props[of "wsWords s"] wsWords_good[of _ s] by (cases "wsWords s = []") auto
  then have "\<forall>i. Suc i < length (joinWords (wsWords s)) \<longrightarrow>
      \<not> (isSpace (joinWords (wsWords s) ! i) \<and> isSpace (joinWords (wsWords s) ! Suc i))"
    unfolding successively_conv_nth by blast
  ultimately show ?thesis
    by (simp add: sanitizeString_def trim_sanitized wsWords_allws)
qed

theorem sanitizeString_spec_witness:
  "''  Deep   learning '' \<noteq> []
   \<and> sanitizeString (Str ''  Deep   learning '') = Inr (Str ''Deep learning'')
   \<and> joinWords (wsWords ''  Deep   learning '') = ''Deep learning''
   \<and> sanitizeString (Str '' '') = Inr (Str [])"
  using sanitizeString_spec[of "''  Deep   learning ''"] sanitizeString_spec[of "'' ''"]
  by (simp add: sanitizeString_def trim_def isSpace_def)

subsection \<open>The counters of a run\<close>


lemma saveLoop_counts:
  "saveLoop env a arts n ar rs w = (eo, ar', rs', w') \<Longrightarrow>
     results.authors rs' = results.authors rs
     \<and> total_fetched rs' = total_fetched rs
     \<and> total_saved rs' + saved ar = total_saved rs + saved ar'
     \<and> total_already_exists rs' + already_exists ar = total_already_exists rs + already_exists ar'
     \<and> author ar' = author ar \<and> fetched ar' = fetched ar \<and> error ar' = error ar
     \<and> (n \<le> 3 \<longrightarrow> saved ar' + n \<le> saved ar + 3)"
proof (induction env a arts n ar rs w arbitrary: eo ar' rs' w' rule: saveLoop.induct)
  case (1 env authorName savedCount ar rs w)
  then show ?case by simp
next
  case (2 env authorName article rest savedCount ar rs w)
  show ?case
  proof (cases "savedCount \<ge> 3")
    case True
    then show ?thesis using 2(5) by simp
  next
    case False
    obtain r1 w1 where ex: "existsByGoogleScholarId env (publication.google_scholar_id article) w = (r1, w1)"
      by (cases "existsByGoogleScholarId env (publication.google_scholar_id article) w")
    show ?thesis
    proof (cases r1)
      case (Inl e)
      then show ?thesis using 2(5) False ex by simp
    next
      case (Inr exists)
      show ?thesis
      proof (cases exists)
        case True
        have "saveLoop env authorName rest savedCount (countExisting ar) (countExistingTotal rs) w1
                = (eo, ar', rs', w')"
          using 2(5) False ex Inr True by simp
        from 2(1)[OF False ex[symmetric] Inr True this] show ?thesis
          by (simp add: countExisting_def countExistingTotal_def)
      next
        case nex: False
        show ?thesis
        proof (cases "prepare article")
          case (Inl e)
          then show ?thesis using 2(5) False ex Inr nex by simp
        next
          case pr: (Inr dbArticle)
          obtain r2 w2 where cr: "create env dbArticle w1 = (r2, w2)"
            by (cases "create env dbArticle w1")
          show ?thesis
          proof (cases r2)
            case ok: (Inr articleId)
            have "saveLoop env authorName rest (savedCount + 1) (countSaved articleId dbArticle ar)
                   (countSavedTotal articleId dbArticle authorName rs) w2 = (eo, ar', rs', w')"
              using 2(5) False ex Inr nex pr cr ok by simp
            from 2(4)[OF False ex[symmetric] Inr nex pr cr[symmetric] ok this] show ?thesis
              using False by (simp add: countSaved_def countSavedTotal_def)
          next
            case err: (Inl saveError)
            show ?thesis
            proof (cases "includesStr (message saveError) ''already exists''")
              case True
              have "saveLoop env authorName rest savedCount (countExisting ar) (countExistingTotal rs) w2
                      = (eo, ar', rs', w')"
                using 2(5) False ex Inr nex pr cr err True by simp
              from 2(2)[OF False ex[symmetric] Inr nex pr cr[symmetric] err True this] show ?thesis
                by (simp add: countExisting_def countExistingTotal_def)
            next
              case nin: False
              have "saveLoop env authorName rest savedCount ar rs w2 = (eo, ar', rs', w')"
                using 2(5) False ex Inr nex pr cr err nin by simp
              from 2(3)[OF False ex[symmetric] Inr nex pr cr[symmetric] err nin this] show ?thesis .
            qed
          qed
        qed
      qed
    qed
  qed
qed


lemma processAuthor_counts:
  assumes "processAuthor env al a (rs, w) = (rs', w')"
  shows "\<exists>ar. results.authors rs' = results.authors rs @ [ar] \<and> author ar = a
          \<and> total_fetched rs' = total_fetched rs + fetched ar
          \<and> total_saved rs' = total_saved rs + saved ar
          \<and> total_already_exists rs' = total_already_exists rs + already_exists ar
          \<and> saved ar \<le> 3"
  using assms
  by (auto simp: processAuthor_def Let_def pushAuthor_def newAuthorResult_def
           split: prod.splits sum.splits option.splits dest!: saveLoop_counts)

lemma authorsLoop_counts:
  "authorsLoop env al names (rs, w) = (rs', w') \<Longrightarrow>
     \<exists>ars. results.authors rs' = results.authors rs @ ars \<and> map author ars = names
          \<and> total_fetched rs' = total_fetched rs + sum_list (map fetched ars)
          \<and> total_saved rs' = total_saved rs + sum_list (map saved ars)
          \<and> total_already_exists rs' = total_already_exists rs + sum_list (map already_exists ars)
          \<and> (\<forall>ar\<in>set ars. saved ar \<le> 3)"
proof (induction names arbitrary: rs w)
  case Nil
  then show ?case by simp
next
  case (Cons a names)
  obtain rs1 w1 where p: "processAuthor env al a (rs, w) = (rs1, w1)"
    by (cases "processAuthor env al a (rs, w)")
  from processAuthor_counts[OF p] obtain ar where ar:
    "results.authors rs1 = results.authors rs @ [ar]" "author ar = a"
    "total_fetched rs1 = total_fetched rs + fetched ar"
    "total_saved rs1 = total_saved rs + saved ar"
    "total_already_exists rs1 = total_already_exists rs + already_exists ar"
    "saved ar \<le> 3" by blast
  have "authorsLoop env al names (rs1, w1) = (rs', w')"
    using Cons.prems p by simp
  from Cons.IH[OF this] obtain ars where ars:
    "results.authors rs' = results.authors rs1 @ ars" "map author ars = names"
    "total_fetched rs' = total_fetched rs1 + sum_list (map fetched ars)"
    "total_saved rs' = total_saved rs1 + sum_list (map saved ars)"
    "total_already_exists rs' = total_already_exists rs1 + sum_list (map already_exists ars)"
    "\<forall>ar\<in>set ars. saved ar \<le> 3" by blast
  show ?case
    by (rule exI[of _ "ar # ars"]) (use ar ars in simp)
qed


lemma demoRun:
  "fst (fetchArticlesByAuthors demoEnv (Str ''X,Y,Z'') demoWorld) =
     Status200 ''Processed 3 authors'' demoResults"
  by code_simp

lemma authorListOf_Nil: "authorListOf [] = []"
  by (simp add: authorListOf_def trim_def)

lemma showNat_3: "showNat 3 = ''3''"
  by code_simp

lemma fetch_three:
  assumes "length (authorListOf s) = 3"
  shows "fetchArticlesByAuthors env (Str s) w =
           (case authorsLoop env (authorListOf s) (authorListOf s) (emptyResults, w) of
              (rs, w') \<Rightarrow> (Status200 ''Processed 3 authors'' rs, w'))"
proof -
  have "s \<noteq> []" using assms by (auto simp: authorListOf_Nil)
  then show ?thesis using assms
    by (simp add: fetchArticlesByAuthors_def Let_def showNat_3)
qed

lemma fetch_ok_cases:
  assumes "fetchArticlesByAuthors env q w = (Status200 m rs, w')"
  shows "\<exists>s. q = Str s \<and> length (authorListOf s) = 3
           \<and> authorsLoop env (authorListOf s) (authorListOf s) (emptyResults, w) = (rs, w')"
  using assms
  by (cases q)
     (auto simp: fetchArticlesByAuthors_def Let_def split: if_splits prod.splits)

text \<open>
  C1: when the handler answers with a summary, the summary has three author entries and
  no entry has more than 3 saved articles, whatever the search and the database return.
  A candidate that the existence check finds in storage adds one to \<open>already_exists\<close> of
  the author and of the run, and the loop goes on with the same count of saved articles.
\<close>

theorem saved_at_most_three:
  "(fetchArticlesByAuthors env q w = (Status200 m rs, w') \<longrightarrow>
      length (results.authors rs) = 3 \<and> (\<forall>ar\<in>set (results.authors rs). saved ar \<le> 3))
   \<and> (savedCount < 3
        \<and> existsByGoogleScholarId env (publication.google_scholar_id article) w = (Inr True, w1)
      \<longrightarrow> saveLoop env a (article # rest) savedCount ar rs0 w =
           saveLoop env a rest savedCount
             (ar\<lparr>already_exists := already_exists ar + 1\<rparr>)
             (rs0\<lparr>total_already_exists := total_already_exists rs0 + 1\<rparr>) w1)"
proof (intro conjI impI)
  assume run: "fetchArticlesByAuthors env q w = (Status200 m rs, w')"
  from fetch_ok_cases[OF run] obtain s where s: "length (authorListOf s) = 3"
    "authorsLoop env (authorListOf s) (authorListOf s) (emptyResults, w) = (rs, w')" by blast
  from authorsLoop_counts[OF s(2)] obtain ars where ars:
    "results.authors rs = results.authors emptyResults @ ars" "map author ars = authorListOf s"
    "\<forall>ar\<in>set ars. saved ar \<le> 3" by blast
  have "length ars = 3" using ars(2) s(1) by (metis length_map)
  then show "length (results.authors rs) = 3" using ars(1) by (simp add: emptyResults_def)
  show "\<forall>ar\<in>set (results.authors rs). saved ar \<le> 3"
    using ars(1,3) by (simp add: emptyResults_def)
next
  assume "savedCount < 3
        \<and> existsByGoogleScholarId env (publication.google_scholar_id article) w = (Inr True, w1)"
  then show "saveLoop env a (article # rest) savedCount ar rs0 w =
           saveLoop env a rest savedCount
             (ar\<lparr>already_exists := already_exists ar + 1\<rparr>)
             (rs0\<lparr>total_already_exists := total_already_exists rs0 + 1\<rparr>) w1"
    by (simp add: countExisting_def countExistingTotal_def)
qed

text \<open>
  C2: in the summary of a run, \<open>total_saved\<close> is the sum of \<open>saved\<close> over the three author
  entries and \<open>total_already_exists\<close> is the sum of their \<open>already_exists\<close>.
\<close>

theorem totals_are_sums:
  assumes "fetchArticlesByAuthors env q w = (Status200 m rs, w')"
  shows "length (results.authors rs) = 3
     \<and> total_saved rs = sum_list (map saved (results.authors rs))
     \<and> total_already_exists rs = sum_list (map already_exists (results.authors rs))"
proof -
  from fetch_ok_cases[OF assms] obtain s where s: "length (authorListOf s) = 3"
    "authorsLoop env (authorListOf s) (authorListOf s) (emptyResults, w) = (rs, w')" by blast
  from authorsLoop_counts[OF s(2)] obtain ars where ars:
    "results.authors rs = results.authors emptyResults @ ars" "map author ars = authorListOf s"
    "total_saved rs = total_saved emptyResults + sum_list (map saved ars)"
    "total_already_exists rs = total_already_exists emptyResults + sum_list (map already_exists ars)"
    by blast
  have "length ars = 3" using ars(2) s(1) by (metis length_map)
  then show ?thesis using ars by (simp add: emptyResults_def)
qed

text \<open>
  C3: when the string of author names does not give exactly three names after splitting at
  commas, trimming and dropping empty names, the handler answers with status 400 and the
  world is unchanged: no call to the search API or to the database has been made.
\<close>

theorem validation_before_io:
  assumes "length (authorListOf s) \<noteq> 3"
  shows "\<exists>msg. fetchArticlesByAuthors env (Str s) w = (Status400 msg, w)"
  using assms by (simp add: fetchArticlesByAuthors_def Let_def)


theorem validation_before_io_witness:
  "length (authorListOf ''Ada, Bob'') \<noteq> 3
   \<and> (\<exists>msg. fetchArticlesByAuthors demoEnv (Str ''Ada, Bob'') demoWorld = (Status400 msg, demoWorld))"
proof -
  have "length (authorListOf ''Ada, Bob'') \<noteq> 3" by code_simp
  then show ?thesis using validation_before_io[of "''Ada, Bob''" demoEnv demoWorld] by blast
qed

lemma demoRun_pair:
  "fetchArticlesByAuthors demoEnv (Str ''X,Y,Z'') demoWorld =
     (Status200 ''Processed 3 authors'' demoResults,
      snd (fetchArticlesByAuthors demoEnv (Str ''X,Y,Z'') demoWorld))"
  using demoRun by (metis prod.collapse)

theorem totals_are_sums_witness:
  "fst (fetchArticlesByAuthors demoEnv (Str ''X,Y,Z'') demoWorld) =
     Status200 ''Processed 3 authors'' demoResults
   \<and> length (results.authors demoResults) = 3
   \<and> total_saved demoResults = sum_list (map saved (results.authors demoResults))
   \<and> total_already_exists demoResults =
       sum_list (map already_exists (results.authors demoResults))
   \<and> total_saved demoResults = 4 \<and> total_already_exists demoResults = 5"
  using totals_are_sums[OF demoRun_pair] demoRun by (simp add: demoResults_def)

lemma demoExists:
  "existsByGoogleScholarId demoEnv (publication.google_scholar_id (demoArticle ''q'')) demoWorld =
     (Inr True, logCall (SqlCount (Str ''q'')) [Str ''q''] demoWorld)"
  by (simp add: existsByGoogleScholarId_def demoEnv_def demoWorld_def demoArticle_def bindE_def)

theorem saved_at_most_three_witness:
  "fst (fetchArticlesByAuthors demoEnv (Str ''X,Y,Z'') demoWorld) =
     Status200 ''Processed 3 authors'' demoResults
   \<and> length (results.authors demoResults) = 3
   \<and> list_all (\<lambda>ar. saved ar \<le> 3) (results.authors demoResults)
   \<and> map saved (results.authors demoResults) = [3, 0, 1]
   \<and> existsByGoogleScholarId demoEnv (publication.google_scholar_id (demoArticle ''q'')) demoWorld =
       (Inr True, logCall (SqlCount (Str ''q'')) [Str ''q''] demoWorld)
   \<and> saveLoop demoEnv ''X'' [demoArticle ''q''] 2 (newAuthorResult ''X'') emptyResults demoWorld =
       saveLoop demoEnv ''X'' [] 2
         ((newAuthorResult ''X'')\<lparr>already_exists := already_exists (newAuthorResult ''X'') + 1\<rparr>)
         (emptyResults\<lparr>total_already_exists := total_already_exists emptyResults + 1\<rparr>)
         (logCall (SqlCount (Str ''q'')) [Str ''q''] demoWorld)"
proof -
  note T = saved_at_most_three[of demoEnv "Str ''X,Y,Z''" demoWorld "''Processed 3 authors''"
      demoResults "snd (fetchArticlesByAuthors demoEnv (Str ''X,Y,Z'') demoWorld)"
      2 "demoArticle ''q''" "logCall (SqlCount (Str ''q'')) [Str ''q''] demoWorld"
      "''X''" "[]" "newAuthorResult ''X''" emptyResults]
  have A: "length (results.authors demoResults) = 3
      \<and> (\<forall>ar\<in>set (results.authors demoResults). saved ar \<le> 3)"
    using T demoRun_pair by blast
  have B: "saveLoop demoEnv ''X'' [demoArticle ''q''] 2 (newAuthorResult ''X'') emptyResults demoWorld =
       saveLoop demoEnv ''X'' [] 2
         ((newAuthorResult ''X'')\<lparr>already_exists := already_exists (newAuthorResult ''X'') + 1\<rparr>)
         (emptyResults\<lparr>total_already_exists := total_already_exists emptyResults + 1\<rparr>)
         (logCall (SqlCount (Str ''q'')) [Str ''q''] demoWorld)"
    using T demoExists by simp
  have C: "map saved (results.authors demoResults) = [3, 0, 1]"
    by (simp add: demoResults_def)
  have A': "list_all (\<lambda>ar. saved ar \<le> 3) (results.authors demoResults)"
    using A by (simp add: list_all_iff)
  show ?thesis using A A' B C demoRun demoExists by blast
qed

subsection \<open>Failure of a search\<close>

lemma includesStr_self: "sub \<noteq> [] \<Longrightarrow> includesStr sub sub"
  by (cases sub) simp_all

lemma includesStr_append: "includesStr s sub \<Longrightarrow> includesStr (p @ s) sub"
  by (induction p) simp_all

lemma includesStr_suffix: "sub \<noteq> [] \<Longrightarrow> includesStr (p @ sub) sub"
  by (simp add: includesStr_append includesStr_self)

lemma duplicate_message:
  "includesStr (''Article with google_scholar_id '' @ [CHR 0x27] @ i @ [CHR 0x27]
                 @ '' already exists'') ''already exists''"
proof -
  have e: "''Article with google_scholar_id '' @ [CHR 0x27] @ i @ [CHR 0x27] @ '' already exists''
      = (''Article with google_scholar_id '' @ [CHR 0x27] @ i @ [CHR 0x27] @ '' '') @ ''already exists''"
    by simp
  show ?thesis unfolding e by (rule includesStr_suffix) simp
qed

lemma or_js_idem: "or_js (or_js v (Num 0)) (Num 0) = or_js v (Num 0)"
  by (simp add: or_js_def)

lemma prepare_row:
  "prepare p = Inr row \<Longrightarrow>
     row\<lparr>dbArticle.citation_count := or_js (dbArticle.citation_count row) (Num 0)\<rparr> = row"
  by (auto simp: prepare_def bindE_def or_js_idem split: sum.splits)

lemma specPersist_saveLoop:
  "specPersist env name ps n ar rs w = Some r \<Longrightarrow>
     saveLoop env name ps n ar rs w = (None, r)"
proof (induction ps arbitrary: n ar rs w r)
  case Nil
  then show ?case by simp
next
  case (Cons p ps)
  show ?case
    using Cons.prems
    by (auto simp: existsByGoogleScholarId_def create_def Let_def bindE_def countExisting_def
          countExistingTotal_def countSaved_def countSavedTotal_def prepare_row Cons.IH
          duplicate_message[simplified]
          split: prod.splits sum.splits if_splits)
qed

lemma specFetch_searchByAuthor:
  "specFetch env name w = Some (raw, w1) \<Longrightarrow>
     searchByAuthor env name 0 w = (Inr raw, w1)
     \<and> getProp raw ''organic_results'' = Inr (getOpt raw ''organic_results'')"
  by (auto simp: specFetch_def searchByAuthor_def search_def Let_def bindE_def
        split: prod.splits sum.splits js.splits if_splits)

lemma specValid_filter: "filterValidPublications ps = filter specValid ps"
  unfolding filterValidPublications_def
  by (rule filter_cong) (simp_all add: isValidPublication_def specValid_def)

lemma specAuthor_processAuthor:
  assumes "specAuthor env isLast name (rs, w) = Some st"
    and "(indexOf al name < int (length al) - 1) = (\<not> isLast)"
  shows "processAuthor env al name (rs, w) = st"
proof -
  from assms(1) obtain raw w1 where f: "specFetch env name w = Some (raw, w1)"
    by (auto simp: specAuthor_def split: option.splits)
  note s = specFetch_searchByAuthor[OF f]
  show ?thesis
  proof (cases "truthy (getOpt raw ''organic_results'')")
    case False
    then show ?thesis
      using assms(1) f s
      by (simp add: specAuthor_def processAuthor_def bindE_def Let_def pushAuthor_def
            newAuthorResult_def)
  next
    case True
    then obtain items where items: "getOpt raw ''organic_results'' = Arr items"
      using assms(1) f by (auto simp: specAuthor_def Let_def split: js.splits)
    show ?thesis
    proof (cases "items = []")
      case True
      then show ?thesis
        using assms(1) f s items
        by (simp add: specAuthor_def processAuthor_def bindE_def Let_def pushAuthor_def
              newAuthorResult_def)
    next
      case False
      then obtain parsed where parsed: "mapE parseOrganicResult items = Inr parsed"
        using assms(1) f items by (auto simp: specAuthor_def Let_def split: sum.splits)
      let ?valid = "filter specValid parsed"
      let ?ar1 = "\<lparr>author = name, fetched = length ?valid, saved = 0,
                    already_exists = 0, articles = [], error = None\<rparr>"
      let ?rs1 = "rs\<lparr>total_fetched := total_fetched rs + length ?valid\<rparr>"
      from assms(1) f items False parsed obtain ar rs2 w2 where
        p: "specPersist env name ?valid 0 ?ar1 ?rs1 w1 = Some (ar, rs2, w2)"
        and st: "st = (rs2\<lparr>authors := results.authors rs2 @ [ar]\<rparr>,
                       if isLast then w2 else logCall (Delay 2000) (outside w2) w2)"
        by (auto simp: specAuthor_def Let_def split: option.splits)
      have l: "saveLoop env name ?valid 0 ?ar1 ?rs1 w1 = (None, ar, rs2, w2)"
        using specPersist_saveLoop[OF p] .
      have n: "Num (int (length items)) \<noteq> Num 0" using False by simp
      show ?thesis
        using s items n parsed l st assms(2)
        by (simp add: processAuthor_def bindE_def Let_def pushAuthor_def newAuthorResult_def
              parseOrganicResults_def specValid_filter)
    qed
  qed
qed

lemma indexOf_distinct:
  "a \<notin> set pfx \<Longrightarrow> indexOf (pfx @ a # rest) a = int (length pfx)"
proof (induction pfx)
  case Nil
  then show ?case by simp
next
  case (Cons x pfx)
  then show ?case by (auto simp: Let_def)
qed

lemma specAuthors_authorsLoop:
  assumes "distinct (pfx @ names @ later)" "al = pfx @ names @ later"
    and "specAuthors env later names st = Some st'"
  shows "authorsLoop env al names st = st'"
  using assms
proof (induction names arbitrary: pfx st)
  case Nil
  then show ?case by simp
next
  case (Cons name rest)
  from Cons.prems(3) obtain st1 where
    a: "specAuthor env (rest = [] \<and> later = []) name st = Some st1"
    and r: "specAuthors env later rest st1 = Some st'"
    by (auto split: option.splits)
  have al: "al = pfx @ name # (rest @ later)" using Cons.prems(2) by simp
  have "name \<notin> set pfx" using Cons.prems(1) by auto
  then have i: "indexOf al name = int (length pfx)"
    unfolding al by (rule indexOf_distinct)
  have "(indexOf al name < int (length al) - 1) = (\<not> (rest = [] \<and> later = []))"
    unfolding i unfolding al by (cases rest; cases later) auto
  then have p: "processAuthor env al name st = st1"
    using specAuthor_processAuthor[of env _ name "fst st" "snd st" st1 al] a by simp
  have "authorsLoop env al rest st1 = st'"
    using Cons.IH[of "pfx @ [name]" st1] Cons.prems(1,2) r by simp
  then show ?case using p by simp
qed

text \<open>The controller pauses when the first occurrence of the author's name is not at the
  last position of the list; with a repeated name it pauses after the last author too, so
  the comparison is made for distinct names.\<close>

lemma pause_after_repeated_name:
  "indexOf [''X'', ''Y'', ''X''] ''X'' < int (length [''X'', ''Y'', ''X'']) - 1"
  by simp

lemma authorsLoop_append:
  "authorsLoop env al (xs @ ys) st = authorsLoop env al ys (authorsLoop env al xs st)"
  by (induction xs arbitrary: st) simp_all

lemma processAuthor_search_fails:
  "searchByAuthor env a 0 w = (Inl e, w2) \<Longrightarrow>
     processAuthor env al a (rs, w) =
       (pushAuthor ((newAuthorResult a)\<lparr>error := Some (message e)\<rparr>) rs, w2)"
  by (simp add: processAuthor_def)

text \<open>
  C4: let the string give three author names and let the search for one of them raise,
  at the state of the world reached after the authors before it. Then the handler
  answers with status 200 and a summary that has one entry per author, in order; the entry
  of the failing author has no counts and carries the message of the exception in \<open>error\<close>;
  the authors after it are processed by the same loop from the state in which only that
  entry has been added and only the search call has been made. The other authors are
  fetched, parsed, filtered and persisted as the algorithm of the specification says: when
  the names are distinct and that algorithm describes the processing of the authors before
  the failing one, the summary and the world reached before the failing search are the
  ones it yields; and when it describes the processing of the authors after the failing
  one, the summary of the run and the world at its end are the ones it yields.
\<close>

theorem partial_failure_isolated:
  assumes names: "authorListOf s = pre @ a # post" "length (authorListOf s) = 3"
    and before: "authorsLoop env (authorListOf s) pre (emptyResults, w) = (rs1, w1)"
    and fails: "searchByAuthor env a 0 w1 = (Inl e, w2)"
  shows "\<exists>rs w'.
           fetchArticlesByAuthors env (Str s) w = (Status200 ''Processed 3 authors'' rs, w')
           \<and> (rs, w') = authorsLoop env (authorListOf s) post
                 (pushAuthor ((newAuthorResult a)\<lparr>error := Some (message e)\<rparr>) rs1, w2)
           \<and> map author (results.authors rs) = authorListOf s
           \<and> results.authors rs ! length pre = (newAuthorResult a)\<lparr>error := Some (message e)\<rparr>
           \<and> (\<forall>st. distinct (authorListOf s)
                  \<and> specAuthors env (a # post) pre (emptyResults, w) = Some st
                 \<longrightarrow> (rs1, w1) = st)
           \<and> (\<forall>st. distinct (authorListOf s)
                  \<and> specAuthors env [] post
                       (pushAuthor ((newAuthorResult a)\<lparr>error := Some (message e)\<rparr>) rs1, w2)
                     = Some st
                 \<longrightarrow> (rs, w') = st)"
proof -
  let ?al = "authorListOf s"
  let ?err = "(newAuthorResult a)\<lparr>error := Some (message e)\<rparr>"
  obtain rs w' where post: "authorsLoop env ?al post (pushAuthor ?err rs1, w2) = (rs, w')"
    by (cases "authorsLoop env ?al post (pushAuthor ?err rs1, w2)")
  have whole: "authorsLoop env ?al ?al (emptyResults, w) = (rs, w')"
    using before fails post
    by (subst (2) names(1)) (simp add: authorsLoop_append processAuthor_search_fails)
  have run: "fetchArticlesByAuthors env (Str s) w = (Status200 ''Processed 3 authors'' rs, w')"
    using fetch_three[OF names(2), of env w] whole by simp
  from authorsLoop_counts[OF before] obtain ars1 where ars1:
    "results.authors rs1 = ars1" "map author ars1 = pre"
    by (auto simp: emptyResults_def)
  from authorsLoop_counts[OF post] obtain ars3 where ars3:
    "results.authors rs = results.authors (pushAuthor ?err rs1) @ ars3" "map author ars3 = post"
    by blast
  have auth: "results.authors rs = ars1 @ ?err # ars3"
    using ars1(1) ars3(1) by (simp add: pushAuthor_def)
  have len: "length ars1 = length pre" using ars1(2) by (metis length_map)
  have nm: "map author (results.authors rs) = ?al"
    unfolding auth names(1) using ars1(2) ars3(2) by (simp add: newAuthorResult_def)
  have entry: "results.authors rs ! length pre = ?err"
    unfolding auth using len by (simp add: nth_append)
  have r1: "(rs1, w1) = st"
    if "distinct ?al" "specAuthors env (a # post) pre (emptyResults, w) = Some st" for st
  proof -
    have "distinct ([] @ pre @ (a # post))" "?al = [] @ pre @ (a # post)"
      using that(1) names(1) by simp_all
    from specAuthors_authorsLoop[OF this that(2)] before show ?thesis by simp
  qed
  have r2: "(rs, w') = st"
    if "distinct ?al" "specAuthors env [] post (pushAuthor ?err rs1, w2) = Some st" for st
  proof -
    have "distinct ((pre @ [a]) @ post @ [])" "?al = (pre @ [a]) @ post @ []"
      using that(1) names(1) by simp_all
    from specAuthors_authorsLoop[OF this that(2)] post show ?thesis by simp
  qed
  show ?thesis
    using run post nm entry r1 r2 by (intro exI[of _ rs] exI[of _ w']) simp
qed

lemma demoNames: "authorListOf ''X,Y,Z'' = [''X''] @ ''Y'' # [''Z'']"
  by code_simp

lemma mixedBeforeY:
  "specAuthors mixedEnv (''Y'' # [''Z'']) [''X''] (emptyResults, demoWorld) = Some mixedAfterX"
  by code_simp

lemma mixedSearchY:
  "searchByAuthor mixedEnv ''Y'' 0 (snd mixedAfterX)
     = (Inl (Error ''Network Error: timeout of 30000ms exceeded''),
        logCall (mixedQuery ''Y'') (outside (snd mixedAfterX)) (snd mixedAfterX))"
  by code_simp

lemma mixedAfterY:
  "specAuthors mixedEnv [] [''Z'']
     (pushAuthor ((newAuthorResult ''Y'')
        \<lparr>error := Some (message (Error ''Network Error: timeout of 30000ms exceeded''))\<rparr>)
        (fst mixedAfterX),
      logCall (mixedQuery ''Y'') (outside (snd mixedAfterX)) (snd mixedAfterX))
     = Some mixedEnd"
  by code_simp

lemma mixedLoopX:
  "authorsLoop mixedEnv (authorListOf ''X,Y,Z'') [''X''] (emptyResults, demoWorld)
     = (fst mixedAfterX, snd mixedAfterX)"
  by code_simp

text \<open>A run for \<open>X,Y,Z\<close> in which the search for \<open>Y\<close> times out: of the three items of
  \<open>X\<close> the one without title is dropped, \<open>q\<close> exists and \<open>p\<close> is saved; of the two items of
  \<open>Z\<close>, \<open>p\<close> exists by then and \<open>r\<close> is saved.\<close>

theorem partial_failure_isolated_witness:
  "authorListOf ''X,Y,Z'' = [''X''] @ ''Y'' # [''Z'']
   \<and> distinct (authorListOf ''X,Y,Z'')
   \<and> searchByAuthor mixedEnv ''Y'' 0 (snd mixedAfterX)
       = (Inl (Error ''Network Error: timeout of 30000ms exceeded''),
          logCall (mixedQuery ''Y'') (outside (snd mixedAfterX)) (snd mixedAfterX))
   \<and> specAuthors mixedEnv (''Y'' # [''Z'']) [''X''] (emptyResults, demoWorld) = Some mixedAfterX
   \<and> specAuthors mixedEnv [] [''Z'']
        (pushAuthor ((newAuthorResult ''Y'')
           \<lparr>error := Some (message (Error ''Network Error: timeout of 30000ms exceeded''))\<rparr>)
           (fst mixedAfterX),
         logCall (mixedQuery ''Y'') (outside (snd mixedAfterX)) (snd mixedAfterX))
       = Some mixedEnd
   \<and> fetchArticlesByAuthors mixedEnv (Str ''X,Y,Z'') demoWorld
       = (Status200 ''Processed 3 authors'' (fst mixedEnd), snd mixedEnd)
   \<and> map author (results.authors (fst mixedEnd)) = [''X'', ''Y'', ''Z'']
   \<and> results.authors (fst mixedEnd) ! 1 =
       (newAuthorResult ''Y'')\<lparr>error := Some ''Network Error: timeout of 30000ms exceeded''\<rparr>
   \<and> map fetched (results.authors (fst mixedEnd)) = [2, 0, 2]
   \<and> map saved (results.authors (fst mixedEnd)) = [1, 0, 1]
   \<and> map already_exists (results.authors (fst mixedEnd)) = [1, 0, 1]"
proof -
  let ?e = "Error ''Network Error: timeout of 30000ms exceeded''"
  let ?w2 = "logCall (mixedQuery ''Y'') (outside (snd mixedAfterX)) (snd mixedAfterX)"
  have l: "length (authorListOf ''X,Y,Z'') = 3" by (simp add: demoNames)
  have d: "distinct (authorListOf ''X,Y,Z'')" by (simp add: demoNames)
  from partial_failure_isolated[OF demoNames l mixedLoopX mixedSearchY] obtain rs w' where r:
    "fetchArticlesByAuthors mixedEnv (Str ''X,Y,Z'') demoWorld
       = (Status200 ''Processed 3 authors'' rs, w')"
    "map author (results.authors rs) = authorListOf ''X,Y,Z''"
    "results.authors rs ! length [''X''] = (newAuthorResult ''Y'')\<lparr>error := Some (message ?e)\<rparr>"
    "\<forall>st. distinct (authorListOf ''X,Y,Z'')
        \<and> specAuthors mixedEnv [] [''Z'']
             (pushAuthor ((newAuthorResult ''Y'')\<lparr>error := Some (message ?e)\<rparr>)
                (fst mixedAfterX), ?w2) = Some st
       \<longrightarrow> (rs, w') = st"
    by blast
  have e: "(rs, w') = mixedEnd" using r(4) d mixedAfterY by blast
  have rs: "rs = fst mixedEnd" using e by (metis fst_conv)
  have w': "w' = snd mixedEnd" using e by (metis snd_conv)
  have 1: "fetchArticlesByAuthors mixedEnv (Str ''X,Y,Z'') demoWorld
       = (Status200 ''Processed 3 authors'' (fst mixedEnd), snd mixedEnd)"
    using r(1) rs w' by simp
  have 2: "map author (results.authors (fst mixedEnd)) = [''X'', ''Y'', ''Z'']"
    using r(2) rs demoNames by simp
  have 3: "results.authors (fst mixedEnd) ! 1 =
       (newAuthorResult ''Y'')\<lparr>error := Some ''Network Error: timeout of 30000ms exceeded''\<rparr>"
    using r(3) rs by simp
  have 4: "map fetched (results.authors (fst mixedEnd)) = [2, 0, 2]"
    "map saved (results.authors (fst mixedEnd)) = [1, 0, 1]"
    "map already_exists (results.authors (fst mixedEnd)) = [1, 0, 1]"
    by (simp_all add: mixedEnd_def)
  show ?thesis
    using demoNames d mixedSearchY mixedBeforeY mixedAfterY 1 2 3 4 by blast
qed

subsection \<open>Failure of an insert\<close>


text \<open>
  C5 (amended): let a candidate pass the existence check, and let its insert fail. If the
  driver reports a duplicate entry, the candidate is counted in \<open>already_exists\<close> of the
  author and of the run, and the loop goes on with the next candidate. If the driver reports
  another error whose message does not contain \<open>already exists\<close>, no counter changes and
  the loop goes on with the next candidate. If the driver reports another error whose
  message contains \<open>already exists\<close>, the candidate is counted in \<open>already_exists\<close> like a
  duplicate, and the loop goes on with the next candidate. In none of the three cases does
  the failed insert end the loop.
\<close>

theorem insert_failures:
  assumes "savedCount < 3"
    and "existsByGoogleScholarId env (publication.google_scholar_id article) w = (Inr False, w1)"
    and "prepare article = Inr d"
    and "row = d\<lparr>dbArticle.citation_count := or_js (dbArticle.citation_count d) (Num 0)\<rparr>"
    and "pool_insert env row (outside w1) = (Inl err, x)"
  shows "(code err = Some ''ER_DUP_ENTRY'' \<longrightarrow>
            saveLoop env a (article # rest) savedCount ar rs w =
              saveLoop env a rest savedCount
                (ar\<lparr>already_exists := already_exists ar + 1\<rparr>)
                (rs\<lparr>total_already_exists := total_already_exists rs + 1\<rparr>)
                (logCall (SqlInsert row) x w1))
       \<and> (code err \<noteq> Some ''ER_DUP_ENTRY'' \<and> \<not> includesStr (message err) ''already exists'' \<longrightarrow>
            saveLoop env a (article # rest) savedCount ar rs w =
              saveLoop env a rest savedCount ar rs (logCall (SqlInsert row) x w1))
       \<and> (code err \<noteq> Some ''ER_DUP_ENTRY'' \<and> includesStr (message err) ''already exists'' \<longrightarrow>
            saveLoop env a (article # rest) savedCount ar rs w =
              saveLoop env a rest savedCount
                (ar\<lparr>already_exists := already_exists ar + 1\<rparr>)
                (rs\<lparr>total_already_exists := total_already_exists rs + 1\<rparr>)
                (logCall (SqlInsert row) x w1))"
proof (intro conjI impI)
  assume dup: "code err = Some ''ER_DUP_ENTRY''"
  have "create env d w1 =
          (Inl (Error (''Article with google_scholar_id '' @ [CHR 0x27]
                       @ toString (dbArticle.google_scholar_id d) @ [CHR 0x27]
                       @ '' already exists'')), logCall (SqlInsert row) x w1)"
    using assms(4,5) dup by (simp add: create_def Let_def)
  then show "saveLoop env a (article # rest) savedCount ar rs w =
              saveLoop env a rest savedCount
                (ar\<lparr>already_exists := already_exists ar + 1\<rparr>)
                (rs\<lparr>total_already_exists := total_already_exists rs + 1\<rparr>)
                (logCall (SqlInsert row) x w1)"
    using assms(1,2,3) duplicate_message[of "toString (dbArticle.google_scholar_id d)"]
    by (simp add: countExisting_def countExistingTotal_def del: includesStr.simps)
next
  assume other: "code err \<noteq> Some ''ER_DUP_ENTRY'' \<and> \<not> includesStr (message err) ''already exists''"
  have "create env d w1 = (Inl err, logCall (SqlInsert row) x w1)"
    using assms(4,5) other by (simp add: create_def Let_def)
  then show "saveLoop env a (article # rest) savedCount ar rs w =
              saveLoop env a rest savedCount ar rs (logCall (SqlInsert row) x w1)"
    using assms(1,2,3) other by simp
next
  assume msg: "code err \<noteq> Some ''ER_DUP_ENTRY'' \<and> includesStr (message err) ''already exists''"
  have "create env d w1 = (Inl err, logCall (SqlInsert row) x w1)"
    using assms(4,5) msg by (simp add: create_def Let_def)
  then show "saveLoop env a (article # rest) savedCount ar rs w =
              saveLoop env a rest savedCount
                (ar\<lparr>already_exists := already_exists ar + 1\<rparr>)
                (rs\<lparr>total_already_exists := total_already_exists rs + 1\<rparr>)
                (logCall (SqlInsert row) x w1)"
    using assms(1,2,3) msg
    by (simp add: countExisting_def countExistingTotal_def del: includesStr.simps)
qed


lemma racePrepare:
  "prepare (demoArticle ''p'') = Inr (demoRow ''p'')"
  "prepare (demoArticle ''r'') = Inr (demoRow ''r'')"
  "prepare (demoArticle ''s'') = Inr (demoRow ''s'')"
  by code_simp+

lemma raceExists:
  "existsByGoogleScholarId raceEnv (publication.google_scholar_id (demoArticle i)) raceWorld =
     (Inr False, logCall (SqlCount (Str i)) () raceWorld)"
  by (simp add: existsByGoogleScholarId_def raceEnv_def demoArticle_def bindE_def)

lemma raceRow:
  "demoRow i = (demoRow i)\<lparr>dbArticle.citation_count :=
      or_js (dbArticle.citation_count (demoRow i)) (Num 0)\<rparr>"
  by (simp add: demoRow_def or_js_def)

lemma raceInsert:
  "pool_insert raceEnv (demoRow ''p'') (outside (logCall (SqlCount (Str ''p'')) () raceWorld)) =
     (Inl (DriverError ''ER_DUP_ENTRY'' ''Duplicate entry''), ())"
  "pool_insert raceEnv (demoRow ''r'') (outside (logCall (SqlCount (Str ''r'')) () raceWorld)) =
     (Inl (DriverError ''ER_LOCK_DEADLOCK'' ''Deadlock found when trying to get lock''), ())"
  "pool_insert raceEnv (demoRow ''s'') (outside (logCall (SqlCount (Str ''s'')) () raceWorld)) =
     (Inl (DriverError ''ER_SIGNAL_EXCEPTION'' ''Title already exists in archive''), ())"
  by (simp_all add: raceEnv_def demoRow_def)

theorem insert_failures_witness:
  "saveLoop raceEnv ''X'' (demoArticle ''p'' # [demoArticle ''t'']) 0 (newAuthorResult ''X'')
       emptyResults raceWorld =
     saveLoop raceEnv ''X'' [demoArticle ''t''] 0
       ((newAuthorResult ''X'')\<lparr>already_exists := already_exists (newAuthorResult ''X'') + 1\<rparr>)
       (emptyResults\<lparr>total_already_exists := total_already_exists emptyResults + 1\<rparr>)
       (logCall (SqlInsert (demoRow ''p'')) () (logCall (SqlCount (Str ''p'')) () raceWorld))
   \<and> saveLoop raceEnv ''X'' (demoArticle ''r'' # [demoArticle ''t'']) 0 (newAuthorResult ''X'')
       emptyResults raceWorld =
     saveLoop raceEnv ''X'' [demoArticle ''t''] 0 (newAuthorResult ''X'') emptyResults
       (logCall (SqlInsert (demoRow ''r'')) () (logCall (SqlCount (Str ''r'')) () raceWorld))
   \<and> saveLoop raceEnv ''X'' (demoArticle ''s'' # [demoArticle ''t'']) 0 (newAuthorResult ''X'')
       emptyResults raceWorld =
     saveLoop raceEnv ''X'' [demoArticle ''t''] 0
       ((newAuthorResult ''X'')\<lparr>already_exists := already_exists (newAuthorResult ''X'') + 1\<rparr>)
       (emptyResults\<lparr>total_already_exists := total_already_exists emptyResults + 1\<rparr>)
       (logCall (SqlInsert (demoRow ''s'')) () (logCall (SqlCount (Str ''s'')) () raceWorld))
   \<and> fst (saveLoop raceEnv ''X'' [demoArticle ''p'', demoArticle ''r'', demoArticle ''t''] 0
         (newAuthorResult ''X'') emptyResults raceWorld) = None
   \<and> fst (snd (saveLoop raceEnv ''X'' [demoArticle ''p'', demoArticle ''r'', demoArticle ''t''] 0
         (newAuthorResult ''X'') emptyResults raceWorld)) =
       \<lparr>author = ''X'', fetched = 0, saved = 1, already_exists = 1,
        articles = [\<lparr>id' = 1, savedArticle.google_scholar_id = Str ''t'',
                     savedArticle.title = Str ''t'', savedArticle.citation_count = Num 0\<rparr>],
        error = None\<rparr>"
proof -
  have c: "code (DriverError ''ER_DUP_ENTRY'' ''Duplicate entry'') = Some ''ER_DUP_ENTRY''"
    by simp
  have o: "code (DriverError ''ER_LOCK_DEADLOCK'' ''Deadlock found when trying to get lock'')
             \<noteq> Some ''ER_DUP_ENTRY''
           \<and> \<not> includesStr (message (DriverError ''ER_LOCK_DEADLOCK''
                   ''Deadlock found when trying to get lock'')) ''already exists''"
    by code_simp
  have z: "(0::nat) < 3" by simp
  note P = insert_failures[OF z raceExists racePrepare(1) raceRow raceInsert(1),
      of "''X''" "[demoArticle ''t'']" "newAuthorResult ''X''" emptyResults]
  note R = insert_failures[OF z raceExists racePrepare(2) raceRow raceInsert(2),
      of "''X''" "[demoArticle ''t'']" "newAuthorResult ''X''" emptyResults]
  note S = insert_failures[OF z raceExists racePrepare(3) raceRow raceInsert(3),
      of "''X''" "[demoArticle ''t'']" "newAuthorResult ''X''" emptyResults]
  have t: "code (DriverError ''ER_SIGNAL_EXCEPTION'' ''Title already exists in archive'')
             \<noteq> Some ''ER_DUP_ENTRY''
           \<and> includesStr (message (DriverError ''ER_SIGNAL_EXCEPTION''
                   ''Title already exists in archive'')) ''already exists''"
    by code_simp
  have E: "saveLoop raceEnv ''X'' (demoArticle ''s'' # [demoArticle ''t'']) 0 (newAuthorResult ''X'')
       emptyResults raceWorld =
     saveLoop raceEnv ''X'' [demoArticle ''t''] 0
       ((newAuthorResult ''X'')\<lparr>already_exists := already_exists (newAuthorResult ''X'') + 1\<rparr>)
       (emptyResults\<lparr>total_already_exists := total_already_exists emptyResults + 1\<rparr>)
       (logCall (SqlInsert (demoRow ''s'')) () (logCall (SqlCount (Str ''s'')) () raceWorld))"
    using S t by blast
  have A: "saveLoop raceEnv ''X'' (demoArticle ''p'' # [demoArticle ''t'']) 0 (newAuthorResult ''X'')
       emptyResults raceWorld =
     saveLoop raceEnv ''X'' [demoArticle ''t''] 0
       ((newAuthorResult ''X'')\<lparr>already_exists := already_exists (newAuthorResult ''X'') + 1\<rparr>)
       (emptyResults\<lparr>total_already_exists := total_already_exists emptyResults + 1\<rparr>)
       (logCall (SqlInsert (demoRow ''p'')) () (logCall (SqlCount (Str ''p'')) () raceWorld))"
    using P c by blast
  have B: "saveLoop raceEnv ''X'' (demoArticle ''r'' # [demoArticle ''t'']) 0 (newAuthorResult ''X'')
       emptyResults raceWorld =
     saveLoop raceEnv ''X'' [demoArticle ''t''] 0 (newAuthorResult ''X'') emptyResults
       (logCall (SqlInsert (demoRow ''r'')) () (logCall (SqlCount (Str ''r'')) () raceWorld))"
    using R o by blast
  have C: "fst (saveLoop raceEnv ''X'' [demoArticle ''p'', demoArticle ''r'', demoArticle ''t''] 0
         (newAuthorResult ''X'') emptyResults raceWorld) = None"
    by code_simp
  have D: "fst (snd (saveLoop raceEnv ''X'' [demoArticle ''p'', demoArticle ''r'', demoArticle ''t''] 0
         (newAuthorResult ''X'') emptyResults raceWorld)) =
       \<lparr>author = ''X'', fetched = 0, saved = 1, already_exists = 1,
        articles = [\<lparr>id' = 1, savedArticle.google_scholar_id = Str ''t'',
                     savedArticle.title = Str ''t'', savedArticle.citation_count = Num 0\<rparr>],
        error = None\<rparr>"
    by code_simp
  show ?thesis using A B C D E by blast
qed

text \<open>An insert that fails with an error other than a duplicate entry, whose message
  contains \<open>already exists\<close>, is counted in \<open>already_exists\<close>: the controller recognises the
  duplicate by the message, not by the code.\<close>

theorem insert_failures_counterexample:
  "code (DriverError ''ER_SIGNAL_EXCEPTION'' ''Title already exists in archive'')
     \<noteq> Some ''ER_DUP_ENTRY''
   \<and> existsByGoogleScholarId raceEnv (publication.google_scholar_id (demoArticle ''s'')) raceWorld =
       (Inr False, logCall (SqlCount (Str ''s'')) () raceWorld)
   \<and> prepare (demoArticle ''s'') = Inr (demoRow ''s'')
   \<and> pool_insert raceEnv (demoRow ''s'') () =
       (Inl (DriverError ''ER_SIGNAL_EXCEPTION'' ''Title already exists in archive''), ())
   \<and> already_exists (fst (snd (saveLoop raceEnv ''X'' [demoArticle ''s''] 0
         (newAuthorResult ''X'') emptyResults raceWorld))) = 1
   \<and> total_already_exists (fst (snd (snd (saveLoop raceEnv ''X'' [demoArticle ''s''] 0
         (newAuthorResult ''X'') emptyResults raceWorld)))) = 1"
  by code_simp

subsection \<open>The parser on result items\<close>


lemma getProp_getOpt: "v \<noteq> Undefined \<Longrightarrow> v \<noteq> Null \<Longrightarrow> getProp v k = Inr (getOpt v k)"
  by (cases v) simp_all

lemma getProp_truthy: "truthy v \<Longrightarrow> getProp v k = Inr (getOpt v k)"
  by (cases v) simp_all

lemma getProp_nullish:
  "v = Undefined \<or> v = Null \<Longrightarrow> \<exists>m. getProp v k = Inl (TypeError m)"
  by auto

lemma parsePublicationInfo_total:
  "stringOrFalsy v \<Longrightarrow> \<exists>i. parsePublicationInfo v = Inr i"
  by (cases v) (simp_all add: parsePublicationInfo_def stringOrFalsy_def Let_def)

lemma parsePublicationInfo_raises:
  "\<not> stringOrFalsy v \<Longrightarrow> \<exists>m. parsePublicationInfo v = Inl (TypeError m)"
  by (cases v) (simp_all add: parsePublicationInfo_def stringOrFalsy_def Let_def)

lemma parsePublicationInfo_falsy:
  "\<not> truthy v \<Longrightarrow>
     parsePublicationInfo v = Inr nullInfo"
  by (simp add: parsePublicationInfo_def)

lemma findPdf_visited:
  "(list_all resourceOk (visited rs) \<longrightarrow> (\<exists>r. findPdf rs = Inr r))
   \<and> (\<not> list_all resourceOk (visited rs) \<longrightarrow> (\<exists>m. findPdf rs = Inl (TypeError m)))"
proof (induction rs)
  case Nil
  then show ?case by (simp add: visited_def)
next
  case (Cons x rs)
  show ?case
  proof (cases "x = Undefined \<or> x = Null")
    case True
    then show ?thesis
      by (auto simp: visited_def isPdfEntry_def resourceOk_def bindE_def)
  next
    case False
    then have x: "x \<noteq> Undefined" "x \<noteq> Null" by simp_all
    show ?thesis
      using Cons.IH
      by (cases "getOpt x ''file_format''")
         (auto simp: getProp_getOpt[OF x] bindE_def stringOrAbsent_def visited_def
            isPdfEntry_def resourceOk_def x)
  qed
qed

lemma extractPdfUrl_visited:
  "((case v of Arr rs \<Rightarrow> list_all resourceOk (visited rs) | _ \<Rightarrow> True)
       \<longrightarrow> (\<exists>u. extractPdfUrl v = Inr u))
   \<and> (\<not> (case v of Arr rs \<Rightarrow> list_all resourceOk (visited rs) | _ \<Rightarrow> True)
       \<longrightarrow> (\<exists>m. extractPdfUrl v = Inl (TypeError m)))"
proof (cases v)
  case (Arr rs)
  show ?thesis
    using findPdf_visited[of rs] Arr
    by (cases "list_all resourceOk (visited rs)") (auto simp: extractPdfUrl_def bindE_def)
qed (simp_all add: extractPdfUrl_def)

lemma parseOrganicResult_raises:
  assumes "\<not> parsable result"
  shows "\<exists>m. parseOrganicResult result = Inl (TypeError m)"
proof (cases "result = Undefined \<or> result = Null")
  case True
  then show ?thesis by (auto simp: parseOrganicResult_def bindE_def)
next
  case False
  then have n: "result \<noteq> Undefined" "result \<noteq> Null" by simp_all
  show ?thesis
  proof (cases "truthy (getOpt result ''publication_info'')
        \<and> \<not> stringOrFalsy (getOpt (getOpt result ''publication_info'') ''summary'')")
    case True
    then obtain m where
      "parsePublicationInfo (getOpt (getOpt result ''publication_info'') ''summary'')
         = Inl (TypeError m)"
      using parsePublicationInfo_raises by blast
    then show ?thesis
      using True by (simp add: parseOrganicResult_def getProp_getOpt[OF n] getProp_truthy bindE_def)
  next
    case False
    then have "\<not> (case getOpt result ''resources'' of
            Arr rs \<Rightarrow> list_all resourceOk (visited rs) | _ \<Rightarrow> True)"
      using assms n by (auto simp: parsable_def split: if_splits)
    then obtain m where m: "extractPdfUrl (getOpt result ''resources'') = Inl (TypeError m)"
      using extractPdfUrl_visited by blast
    obtain i where i: "(if truthy (getOpt result ''publication_info'')
            then parsePublicationInfo (getOpt (getOpt result ''publication_info'') ''summary'')
            else Inr emptyInfo) = Inr i"
      using False parsePublicationInfo_total by (cases "truthy (getOpt result ''publication_info'')") auto
    show ?thesis
      using m i
      by (auto simp: parseOrganicResult_def getProp_getOpt[OF n] getProp_truthy bindE_def
            split: if_splits)
  qed
qed

lemma parseOrganicResult_shape:
  assumes "result \<noteq> Undefined" "result \<noteq> Null"
    and "(if truthy (getOpt result ''publication_info'')
          then parsePublicationInfo (getOpt (getOpt result ''publication_info'') ''summary'')
          else Inr emptyInfo) = Inr info"
    and "extractPdfUrl (getOpt result ''resources'') = Inr pdf"
  shows "parseOrganicResult result =
     Inr \<lparr>publication.google_scholar_id = or_js (getOpt result ''result_id'') Null,
          publication.title = or_js (getOpt result ''title'') Null,
          publication.authors = or_js (publicationInfo.authors info) Null,
          publication.publication_year = or_js (year info) Null,
          publication.journal = or_js (publicationInfo.journal info) Null,
          publication.article_url = or_js (getOpt result ''link'') Null,
          abstract = or_js (getOpt result ''snippet'') Null,
          publication.citation_count = or_js (citedByTotal result) (Num 0),
          publication.cites_id = or_js (getOpt (getOpt (getOpt result ''inline_links'') ''cited_by'') ''cites_id'') Null,
          publication.pdf_url = pdf,
          cluster_id = or_js (getOpt (getOpt (getOpt result ''inline_links'') ''versions'') ''cluster_id'') Null,
          publication.publisher = or_js (publicationInfo.publisher info) Null\<rparr>"
  using assms(3,4)
  by (auto simp: parseOrganicResult_def getProp_getOpt[OF assms(1,2)] getProp_truthy bindE_def
        citedByTotal_def split: if_splits)

lemma parseOrganicResult_Inr:
  assumes "parseOrganicResult result = Inr p"
  shows "result \<noteq> Undefined \<and> result \<noteq> Null
     \<and> publication.citation_count p = or_js (citedByTotal result) (Num 0)"
proof -
  have n: "result \<noteq> Undefined" "result \<noteq> Null"
    using assms by (auto simp: parseOrganicResult_def bindE_def)
  show ?thesis
    using assms n
    by (auto simp: parseOrganicResult_def getProp_getOpt[OF n] bindE_def citedByTotal_def
          split: sum.splits if_splits)
qed

lemma or_js_Undefined: "or_js Undefined Null = Null" "or_js Null Null = Null"
  by (simp_all add: or_js_def)

text \<open>
  C8 (amended): the parser returns a record, and raises nothing, exactly for the result
  items of the expected shape: an item other than \<open>null\<close> and \<open>undefined\<close> whose summary is a
  string or falsy and whose resource entries up to the first PDF entry are values other than
  \<open>null\<close> and \<open>undefined\<close> with a string or absent \<open>file_format\<close>. On every other item it
  raises a \<open>TypeError\<close>. The summary parser returns on every string, and for an absent or
  empty summary the four derived fields (authors, journal, year, publisher) are \<open>null\<close>, in
  the parsed summary and in the record.
\<close>

theorem parser_returns_on_expected_shape:
  "((\<exists>p. parseOrganicResult result = Inr p) \<longleftrightarrow> parsable result)
   \<and> (\<not> parsable result \<longrightarrow> (\<exists>m. parseOrganicResult result = Inl (TypeError m)))
   \<and> (\<exists>i. parsePublicationInfo (Str s) = Inr i)
   \<and> parsePublicationInfo Undefined = Inr nullInfo
   \<and> parsePublicationInfo Null = Inr nullInfo
   \<and> parsePublicationInfo (Str []) = Inr nullInfo
   \<and> (parsable result \<and> \<not> truthy (getOpt (getOpt result ''publication_info'') ''summary'') \<longrightarrow>
        (\<exists>p. parseOrganicResult result = Inr p
           \<and> publication.authors p = Null \<and> publication.journal p = Null
           \<and> publication.publication_year p = Null \<and> publication.publisher p = Null))"
proof -
  have shape: "\<exists>info pdf.
        (if truthy (getOpt result ''publication_info'')
          then parsePublicationInfo (getOpt (getOpt result ''publication_info'') ''summary'')
          else Inr emptyInfo) = Inr info
        \<and> extractPdfUrl (getOpt result ''resources'') = Inr pdf
        \<and> (\<not> truthy (getOpt (getOpt result ''publication_info'') ''summary'') \<longrightarrow>
              info = nullInfo \<or> info = emptyInfo)"
    if "parsable result"
  proof -
    have "case getOpt result ''resources'' of
            Arr rs \<Rightarrow> list_all resourceOk (visited rs) | _ \<Rightarrow> True"
      using that by (simp add: parsable_def)
    then obtain pdf where pdf: "extractPdfUrl (getOpt result ''resources'') = Inr pdf"
      using extractPdfUrl_visited by blast
    show ?thesis
    proof (cases "truthy (getOpt result ''publication_info'')")
      case True
      then have "stringOrFalsy (getOpt (getOpt result ''publication_info'') ''summary'')"
        using that by (simp add: parsable_def)
      from parsePublicationInfo_total[OF this] obtain i where
        "parsePublicationInfo (getOpt (getOpt result ''publication_info'') ''summary'') = Inr i"
        by blast
      then show ?thesis using True pdf parsePublicationInfo_falsy by auto
    next
      case False
      then show ?thesis using pdf by simp
    qed
  qed
  have 1: "\<exists>p. parseOrganicResult result = Inr p" if "parsable result"
  proof -
    from shape[OF that] obtain info pdf where
      "(if truthy (getOpt result ''publication_info'')
          then parsePublicationInfo (getOpt (getOpt result ''publication_info'') ''summary'')
          else Inr emptyInfo) = Inr info"
      "extractPdfUrl (getOpt result ''resources'') = Inr pdf" by blast
    moreover have "result \<noteq> Undefined" "result \<noteq> Null" using that by (simp_all add: parsable_def)
    ultimately show ?thesis using parseOrganicResult_shape by blast
  qed
  have 2: "\<exists>p. parseOrganicResult result = Inr p
           \<and> publication.authors p = Null \<and> publication.journal p = Null
           \<and> publication.publication_year p = Null \<and> publication.publisher p = Null"
    if "parsable result" "\<not> truthy (getOpt (getOpt result ''publication_info'') ''summary'')"
  proof -
    from shape[OF that(1)] that(2) obtain info pdf where i:
      "(if truthy (getOpt result ''publication_info'')
          then parsePublicationInfo (getOpt (getOpt result ''publication_info'') ''summary'')
          else Inr emptyInfo) = Inr info"
      "extractPdfUrl (getOpt result ''resources'') = Inr pdf"
      "info = nullInfo \<or> info = emptyInfo" by blast
    have n: "result \<noteq> Undefined" "result \<noteq> Null" using that by (simp_all add: parsable_def)
    show ?thesis
      using parseOrganicResult_shape[OF n i(1,2)] i(3)
      by (auto simp: nullInfo_def emptyInfo_def or_js_Undefined)
  qed
  have 3: "\<exists>i. parsePublicationInfo (Str s) = Inr i"
    by (rule parsePublicationInfo_total) (simp add: stringOrFalsy_def)
  have 4: "\<exists>m. parseOrganicResult result = Inl (TypeError m)" if "\<not> parsable result"
    using that by (rule parseOrganicResult_raises)
  have 5: "(\<exists>p. parseOrganicResult result = Inr p) \<longleftrightarrow> parsable result"
    using 1 4 by (cases "parsable result") auto
  show ?thesis using 2 3 4 5 by (simp add: parsePublicationInfo_falsy)
qed

text \<open>An item with a summary and a \<open>null\<close> entry after its first PDF entry is parsed, with
  the link of that PDF entry; the same item with the \<open>null\<close> entry first raises; an item with
  an empty summary is parsed with the four derived fields \<open>null\<close>.\<close>

theorem parser_returns_on_expected_shape_witness:
  "parsable shapedItem
   \<and> (\<exists>p. parseOrganicResult shapedItem = Inr p)
   \<and> (case parseOrganicResult shapedItem of
        Inr p \<Rightarrow> publication.pdf_url p = Str ''u'' \<and> publication.authors p = Str ''A''
          \<and> publication.journal p = Str ''B'' \<and> publication.publication_year p = Num 2005
          \<and> publication.publisher p = Str ''C''
      | Inl e \<Rightarrow> False)
   \<and> \<not> parsable misshapedItem
   \<and> (\<exists>m. parseOrganicResult misshapedItem = Inl (TypeError m))
   \<and> parsable bareItem
   \<and> \<not> truthy (getOpt (getOpt bareItem ''publication_info'') ''summary'')
   \<and> (\<exists>p. parseOrganicResult bareItem = Inr p
         \<and> publication.authors p = Null \<and> publication.journal p = Null
         \<and> publication.publication_year p = Null \<and> publication.publisher p = Null)"
proof -
  have a: "parsable shapedItem" by code_simp
  have b: "case parseOrganicResult shapedItem of
        Inr p \<Rightarrow> publication.pdf_url p = Str ''u'' \<and> publication.authors p = Str ''A''
          \<and> publication.journal p = Str ''B'' \<and> publication.publication_year p = Num 2005
          \<and> publication.publisher p = Str ''C''
      | Inl e \<Rightarrow> False" by code_simp
  have c: "\<not> parsable misshapedItem" by code_simp
  have d: "parsable bareItem" by code_simp
  have e: "\<not> truthy (getOpt (getOpt bareItem ''publication_info'') ''summary'')" by code_simp
  have A: "\<exists>p. parseOrganicResult shapedItem = Inr p"
    using parser_returns_on_expected_shape[of shapedItem] a by blast
  have C: "\<exists>m. parseOrganicResult misshapedItem = Inl (TypeError m)"
    using parser_returns_on_expected_shape[of misshapedItem] c by blast
  have D: "\<exists>p. parseOrganicResult bareItem = Inr p
         \<and> publication.authors p = Null \<and> publication.journal p = Null
         \<and> publication.publication_year p = Null \<and> publication.publisher p = Null"
    using parser_returns_on_expected_shape[of bareItem] d e by blast
  show ?thesis using a b c d e A C D by blast
qed

text \<open>The parser raises a \<open>TypeError\<close> on an item whose summary is a number, on an item
  whose resource list starts with \<open>null\<close>, on an item whose first resource has a number as
  \<open>file_format\<close>, and on the item \<open>null\<close>.\<close>

theorem parser_raises_counterexample:
  "parseOrganicResult
     (Obj [(''result_id'', Str ''x''), (''title'', Str ''t''),
           (''publication_info'', Obj [(''summary'', Num 2020)])])
     = Inl (TypeError ''summary.split is not a function'')
   \<and> parseOrganicResult
     (Obj [(''result_id'', Str ''x''), (''title'', Str ''t''), (''resources'', Arr [Null])])
     = Inl (TypeError (''Cannot read properties of null (reading ''
                       @ [CHR 0x27] @ ''file_format'' @ [CHR 0x27] @ '')''))
   \<and> parseOrganicResult
     (Obj [(''result_id'', Str ''x''), (''title'', Str ''t''),
           (''resources'', Arr [Obj [(''file_format'', Num 1)]])])
     = Inl (TypeError ''resource.file_format?.toUpperCase is not a function'')
   \<and> parseOrganicResult Null
     = Inl (TypeError (''Cannot read properties of null (reading ''
                       @ [CHR 0x27] @ ''publication_info'' @ [CHR 0x27] @ '')''))"
  by code_simp

text \<open>
  C9 (amended): in every parsed record, \<open>citation_count\<close> is the source's nested citation
  count when that value is truthy, and 0 otherwise. So it is 0 when the source's field is
  missing, and it is the same non-negative integer whenever the source's field is one.
\<close>

theorem citation_count_from_source:
  assumes "parseOrganicResult result = Inr p"
  shows "publication.citation_count p =
           (if truthy (citedByTotal result) then citedByTotal result else Num 0)
     \<and> (citedByTotal result = Undefined \<longrightarrow> publication.citation_count p = Num 0)
     \<and> (\<forall>n. citedByTotal result = Num n \<and> 0 \<le> n \<longrightarrow> publication.citation_count p = Num n)"
  using parseOrganicResult_Inr[OF assms] by (auto simp: or_js_def)

theorem citation_count_from_source_witness:
  "parseOrganicResult (demoItem ''p'') = Inr (demoArticle ''p'')
   \<and> citedByTotal (demoItem ''p'') = Undefined
   \<and> publication.citation_count (demoArticle ''p'') = Num 0"
proof -
  have c: "parseOrganicResult (demoItem ''p'') = Inr (demoArticle ''p'')" by code_simp
  have u: "citedByTotal (demoItem ''p'') = Undefined" by code_simp
  show ?thesis using citation_count_from_source[OF c] c u by blast
qed

text \<open>A negative count of the source, and a count given as a string, are passed on as
  they are.\<close>

theorem citation_count_counterexample:
  "(case parseOrganicResult
           (Obj [(''result_id'', Str ''x''), (''title'', Str ''t''),
                 (''inline_links'', Obj [(''cited_by'', Obj [(''total'', Num (- 5))])])]) of
      Inr p \<Rightarrow> publication.citation_count p
    | Inl e \<Rightarrow> Undefined) = Num (- 5)
   \<and> (case parseOrganicResult
           (Obj [(''result_id'', Str ''x''), (''title'', Str ''t''),
                 (''inline_links'', Obj [(''cited_by'', Obj [(''total'', Str ''12'')])])]) of
      Inr p \<Rightarrow> publication.citation_count p
    | Inl e \<Rightarrow> Undefined) = Str ''12''"
  by code_simp

text \<open>
  C7: what \<open>search\<close> raises. When the body of a received response has an error field with
  text \<open>m\<close>, the exception is \<open>Network Error: m\<close>, the same exception that a failed
  transport with message \<open>m\<close> gives; only a rejection of the request that carries a response
  gives \<open>SerpAPI Error: m\<close>.
\<close>

theorem embedded_error_is_network_error:
  "m \<noteq> [] \<longrightarrow>
     fst (search (answering (Inr (Obj [(''error'', Str m)]))) q st w)
       = Inl (Error (''Network Error: '' @ m))
     \<and> fst (search (answering (Inl (AxiosError m None))) q st w)
       = Inl (Error (''Network Error: '' @ m))
     \<and> fst (search (answering (Inl (AxiosError e (Some (Obj [(''error'', Str m)]))))) q st w)
       = Inl (Error (''SerpAPI Error: '' @ m))"
  by (simp add: search_def answering_def bindE_def or_js_def)

theorem embedded_error_is_network_error_witness:
  "''Invalid API key'' \<noteq> []
   \<and> fst (search (answering (Inr (Obj [(''error'', Str ''Invalid API key'')]))) ''q'' 0 raceWorld)
       = Inl (Error ''Network Error: Invalid API key'')
   \<and> fst (search (answering (Inl (AxiosError ''Invalid API key'' None))) ''q'' 0 raceWorld)
       = Inl (Error ''Network Error: Invalid API key'')
   \<and> fst (search (answering (Inl (AxiosError ''Request failed with status code 401''
                  (Some (Obj [(''error'', Str ''Invalid API key'')]))))) ''q'' 0 raceWorld)
       = Inl (Error ''SerpAPI Error: Invalid API key'')
   \<and> fst (errorHandler (Error ''Network Error: Invalid API key'')) = 503
   \<and> fst (errorHandler (Error ''SerpAPI Error: Invalid API key'')) = 502"
proof -
  have s: "fst (errorHandler (Error ''Network Error: Invalid API key'')) = 503
   \<and> fst (errorHandler (Error ''SerpAPI Error: Invalid API key'')) = 502"
    by code_simp
  show ?thesis
    using embedded_error_is_network_error[of "''Invalid API key''" "''q''" 0 raceWorld
        "''Request failed with status code 401''"] s
    by simp
qed

subsection \<open>The publication summary\<close>


subsubsection \<open>Splitting at the separator\<close>

lemma includesStr_take: "\<not> includesStr (c # cs) sub \<Longrightarrow> take (length sub) (c # cs) \<noteq> sub"
  by simp




subsubsection \<open>Trimmed strings\<close>





subsubsection \<open>Years\<close>










subsubsection \<open>The match\<close>





subsubsection \<open>The replacement\<close>

lemma rtrim_empty: "rev (dropWhile P (rev x)) = [] \<longleftrightarrow> (\<forall>y\<in>set x. P y)"
  by simp










subsubsection \<open>Tokens\<close>





subsubsection \<open>Separators\<close>






subsubsection \<open>The summary\<close>
















end
